theory Spec2Isabelle
  imports Complex_Main "HOL-Library.AList"
begin

section \<open>Reinforcement-learning agents of the Freeway project\<close>

text \<open>
  The development embeds the agent classes of \<^verbatim>\<open>freeway/src/agents.py\<close> and of its older
  copy \<^verbatim>\<open>marianna/project01-rl/src/agents.py\<close>. Numbers that Python holds as floats are
  real numbers here, counters are naturals, and every exception the code can raise is a
  value of the type \<open>error\<close>. A function that mutates its agent returns the new agent.
  Definitions taken from the older copy carry the suffix \<open>_m\<close>.
\<close>

subsection \<open>Exceptions\<close>

datatype error = ZeroDivisionError | ValueError | IndexError | TypeError | NonFinite

text \<open>A statement that raises ends the method: \<open>bind_err\<close> passes a result on, or the error.\<close>

definition bind_err :: "error + 'a \<Rightarrow> ('a \<Rightarrow> error + 'b) \<Rightarrow> error + 'b" where
  "bind_err r f = (case r of Inl e \<Rightarrow> Inl e | Inr x \<Rightarrow> f x)"

subsection \<open>Dictionaries with a default factory\<close>

text \<open>
  A \<^verbatim>\<open>defaultdict\<close> is a finite map together with the value its factory produces.
  Reading a missing key stores the default under that key and returns it:
  \<open>dd_get\<close> is the value read, \<open>dd_touch\<close> the dictionary after the read.
\<close>

definition dd_get :: "'v \<Rightarrow> ('k \<rightharpoonup> 'v) \<Rightarrow> 'k \<Rightarrow> 'v" where
  "dd_get d t k = (case t k of None \<Rightarrow> d | Some x \<Rightarrow> x)"

definition dd_touch :: "'v \<Rightarrow> ('k \<rightharpoonup> 'v) \<Rightarrow> 'k \<Rightarrow> ('k \<rightharpoonup> 'v)" where
  "dd_touch d t k = t(k \<mapsto> dd_get d t k)"

text \<open>
  The nested counter \<^verbatim>\<open>Nsa = defaultdict(lambda: defaultdict(lambda: 0))\<close>:
  \<open>Nsa_get\<close> is the value of \<^verbatim>\<open>Nsa[s][a]\<close>, \<open>Nsa_touch\<close> the dictionary after that
  read, and \<open>Nsa_incr\<close> the dictionary after \<^verbatim>\<open>Nsa[s][a] += 1\<close>.
\<close>

definition Nsa_get :: "('s \<rightharpoonup> (nat \<rightharpoonup> nat)) \<Rightarrow> 's \<Rightarrow> nat \<Rightarrow> nat" where
  "Nsa_get t s a = dd_get 0 (dd_get Map.empty t s) a"

definition Nsa_touch :: "('s \<rightharpoonup> (nat \<rightharpoonup> nat)) \<Rightarrow> 's \<Rightarrow> nat \<Rightarrow> ('s \<rightharpoonup> (nat \<rightharpoonup> nat))" where
  "Nsa_touch t s a = t(s \<mapsto> dd_touch 0 (dd_get Map.empty t s) a)"

definition Nsa_incr :: "('s \<rightharpoonup> (nat \<rightharpoonup> nat)) \<Rightarrow> 's \<Rightarrow> nat \<Rightarrow> ('s \<rightharpoonup> (nat \<rightharpoonup> nat))" where
  "Nsa_incr t s a = t(s \<mapsto> (dd_get Map.empty t s)(a \<mapsto> Nsa_get t s a + 1))"

text \<open>
  The factory of the policy table, \<^verbatim>\<open>defaultdict(lambda: 1)\<close>, returns a constant that
  the constructor chooses: such a table is the constant together with the entries.
  \<open>ddict_new\<close> is the table the constructor makes, \<open>ddict_get\<close> the value read,
  \<open>ddict_touch\<close> the table after the read and \<open>ddict_set\<close> the table after a store.
\<close>

type_synonym ('k, 'v) defaultdict = "'v \<times> ('k \<rightharpoonup> 'v)"

definition ddict_new :: "'v \<Rightarrow> ('k, 'v) defaultdict" where
  "ddict_new d = (d, Map.empty)"

definition ddict_get :: "('k, 'v) defaultdict \<Rightarrow> 'k \<Rightarrow> 'v" where
  "ddict_get t k = dd_get (fst t) (snd t) k"

definition ddict_touch :: "('k, 'v) defaultdict \<Rightarrow> 'k \<Rightarrow> ('k, 'v) defaultdict" where
  "ddict_touch t k = (fst t, dd_touch (fst t) (snd t) k)"

definition ddict_set :: "('k, 'v) defaultdict \<Rightarrow> 'k \<Rightarrow> 'v \<Rightarrow> ('k, 'v) defaultdict" where
  "ddict_set t k x = (fst t, (snd t)(k \<mapsto> x))"

subsection \<open>The numpy operations the agents use\<close>

text \<open>
  Actions are natural numbers: the values \<^verbatim>\<open>act\<close> returns. Indexing a numpy array at or
  beyond its length raises \<^verbatim>\<open>IndexError\<close>; \<^verbatim>\<open>max\<close>, \<^verbatim>\<open>min\<close> and \<^verbatim>\<open>argmax\<close> of an
  empty array raise \<^verbatim>\<open>ValueError\<close>; \<^verbatim>\<open>argmax\<close> returns the first index of the maximum.
\<close>

definition np_zeros :: "nat \<Rightarrow> real list" where
  "np_zeros n = replicate n 0"

definition np_at :: "'a list \<Rightarrow> nat \<Rightarrow> error + 'a" where
  "np_at xs i = (if i < length xs then Inr (xs ! i) else Inl IndexError)"

definition np_set :: "'a list \<Rightarrow> nat \<Rightarrow> 'a \<Rightarrow> error + 'a list" where
  "np_set xs i x = (if i < length xs then Inr (xs[i := x]) else Inl IndexError)"

fun np_max :: "real list \<Rightarrow> error + real" where
  "np_max [] = Inl ValueError"
| "np_max (x # xs) = Inr (fold max xs x)"

fun np_min :: "real list \<Rightarrow> error + real" where
  "np_min [] = Inl ValueError"
| "np_min (x # xs) = Inr (fold min xs x)"

fun first_index :: "real \<Rightarrow> real list \<Rightarrow> nat" where
  "first_index y [] = 0"
| "first_index y (x # xs) = (if x = y then 0 else Suc (first_index y xs))"

definition np_argmax :: "real list \<Rightarrow> error + nat" where
  "np_argmax xs = bind_err (np_max xs) (\<lambda>y. Inr (first_index y xs))"

text \<open>
  \<^verbatim>\<open>update_policy\<close> does not index the list of states of the episode but
  \<^verbatim>\<open>np.array\<close> of it, and uses \<^verbatim>\<open>S[t]\<close> as the key of its tables. What numpy hands
  back for a state is not always the state: byte strings and strings are stored in cells of
  a fixed width and come back without their trailing NUL characters; numbers come back
  with their value; a list of tuples or arrays becomes a two-dimensional array, whose rows
  cannot be dictionary keys (\<^verbatim>\<open>TypeError\<close>, raised where the key is first used). The
  key that numpy makes of a state of the list at hand is an argument \<open>np_elem\<close> of the
  model; \<open>np_bytes\<close> is that key for a list of byte strings.
\<close>

definition np_array_at :: "('s \<Rightarrow> error + 's) \<Rightarrow> 's list \<Rightarrow> nat \<Rightarrow> error + 's" where
  "np_array_at np_elem xs i = bind_err (np_at xs i) np_elem"

definition np_bytes :: "string \<Rightarrow> error + string" where
  "np_bytes b = Inr (rev (dropWhile (\<lambda>c. c = CHR 0x00) (rev b)))"

text \<open>
  \<^verbatim>\<open>np.random.choice(np.arange(n), p=p)\<close> checks its arguments before it draws: the
  population must not be empty, \<^verbatim>\<open>p\<close> must have one entry per element of the population,
  no entry may be negative and the entries must sum to one; otherwise it raises
  \<^verbatim>\<open>ValueError\<close>. The value drawn is an argument of the model, and \<open>draw_possible\<close> says
  that the distribution gives it a positive probability.
  \<^verbatim>\<open>np.random.choice(n)\<close> draws uniformly from \<open>0, ..., n - 1\<close> and raises \<^verbatim>\<open>ValueError\<close>
  when \<open>n\<close> is zero.
\<close>

definition random_choice_p :: "nat \<Rightarrow> real list \<Rightarrow> nat \<Rightarrow> error + nat" where
  "random_choice_p n p drawn =
     (if n = 0 then Inl ValueError
      else if length p \<noteq> n then Inl ValueError
      else if list_ex (\<lambda>x. x < 0) p then Inl ValueError
      else if sum_list p \<noteq> 1 then Inl ValueError
      else Inr drawn)"

definition draw_possible :: "real list \<Rightarrow> nat \<Rightarrow> bool" where
  "draw_possible p drawn = (drawn < length p \<and> 0 < p ! drawn)"

definition random_choice_n :: "nat \<Rightarrow> nat \<Rightarrow> error + nat" where
  "random_choice_n n drawn = (if n = 0 then Inl ValueError else Inr drawn)"

text \<open>
  The exploration probability \<^verbatim>\<open>epsilon = self.N0 / (self.N0 + self.state_visits[state])\<close>;
  Python raises \<^verbatim>\<open>ZeroDivisionError\<close> when the denominator is zero.
\<close>

definition epsilon_of :: "real \<Rightarrow> nat \<Rightarrow> error + real" where
  "epsilon_of n0 visits =
     (if n0 + real visits = 0 then Inl ZeroDivisionError else Inr (n0 / (n0 + real visits)))"

text \<open>The learning rate \<^verbatim>\<open>alpha = (1 / self.Nsa[s][a])\<close>.\<close>

definition alpha_of :: "nat \<Rightarrow> error + real" where
  "alpha_of n = (if n = 0 then Inl ZeroDivisionError else Inr (1 / real n))"

subsection \<open>QLearning\<close>

text \<open>
  Both copies of \<^verbatim>\<open>QLearning.__init__\<close> store the same fields. The value table maps a
  state to its row of \<^verbatim>\<open>available_actions\<close> estimates, created as zeros on first access.
\<close>

record 's QLearning =
  gamma :: real
  available_actions :: nat
  N0 :: real
  Q :: "'s \<rightharpoonup> real list"
  state_visits :: "'s \<rightharpoonup> nat"
  Nsa :: "'s \<rightharpoonup> (nat \<rightharpoonup> nat)"

definition QLearning_init :: "real \<Rightarrow> nat \<Rightarrow> real \<Rightarrow> 's QLearning" where
  "QLearning_init g n n0 =
     \<lparr>QLearning.gamma = g, QLearning.available_actions = n, QLearning.N0 = n0,
      QLearning.Q = Map.empty, QLearning.state_visits = Map.empty, QLearning.Nsa = Map.empty\<rparr>"

text \<open>
  The two greedy branches of the tabular \<^verbatim>\<open>act\<close> methods: action 1 when the row of the
  state has maximum and minimum zero, its \<^verbatim>\<open>argmax\<close> otherwise. The result carries the
  value table after the reads.
\<close>

definition greedy_or_bias :: "nat \<Rightarrow> ('s \<rightharpoonup> real list) \<Rightarrow> 's \<Rightarrow> error + (nat \<times> ('s \<rightharpoonup> real list))" where
  "greedy_or_bias n qt state =
     (let row = dd_get (np_zeros n) qt state; qt' = dd_touch (np_zeros n) qt state in
      bind_err (np_max row) (\<lambda>hi.
      bind_err (np_min row) (\<lambda>lo.
        if hi = 0 \<and> lo = 0 then Inr (1, qt')
        else bind_err (np_argmax row) (\<lambda>a. Inr (a, qt')))))"

text \<open>
  The end of the \<^verbatim>\<open>act\<close> methods that count:
  \<^verbatim>\<open>self.state_visits[state] += 1\<close> and \<^verbatim>\<open>self.Nsa[state][action] += 1\<close>.
\<close>

definition visit_incr :: "('s \<rightharpoonup> nat) \<Rightarrow> 's \<Rightarrow> ('s \<rightharpoonup> nat)" where
  "visit_incr sv state = sv(state \<mapsto> dd_get 0 sv state + 1)"

text \<open>
  \<^verbatim>\<open>QLearning.act\<close> of \<^verbatim>\<open>freeway/src/agents.py\<close>: \<open>coin\<close> is the value of the
  explore-or-exploit draw and \<open>rnd\<close> the value of the uniform draw of an action.
\<close>

definition QLearning_act :: "'s QLearning \<Rightarrow> 's \<Rightarrow> nat \<Rightarrow> nat \<Rightarrow> error + (nat \<times> 's QLearning)" where
  "QLearning_act ag state coin rnd =
     (let sv = dd_touch 0 (QLearning.state_visits ag) state in
      bind_err (epsilon_of (QLearning.N0 ag) (dd_get 0 sv state)) (\<lambda>epsilon.
      bind_err (random_choice_p 2 [1 - epsilon, epsilon] coin) (\<lambda>c.
      bind_err
        (if c \<noteq> 0
         then bind_err (random_choice_n (QLearning.available_actions ag) rnd)
                (\<lambda>a. Inr (a, QLearning.Q ag))
         else greedy_or_bias (QLearning.available_actions ag) (QLearning.Q ag) state)
        (\<lambda>(action, qt).
           Inr (action,
                ag\<lparr>QLearning.Q := qt,
                   QLearning.state_visits := visit_incr sv state,
                   QLearning.Nsa := Nsa_incr (QLearning.Nsa ag) state action\<rparr>)))))"

text \<open>
  \<^verbatim>\<open>QLearning.act\<close> of the older copy: the explore-or-exploit draw is taken from
  \<^verbatim>\<open>np.arange(self.available_actions)\<close>.
\<close>

definition QLearning_act_m :: "'s QLearning \<Rightarrow> 's \<Rightarrow> nat \<Rightarrow> nat \<Rightarrow> error + (nat \<times> 's QLearning)" where
  "QLearning_act_m ag state coin rnd =
     (let sv = dd_touch 0 (QLearning.state_visits ag) state in
      bind_err (epsilon_of (QLearning.N0 ag) (dd_get 0 sv state)) (\<lambda>epsilon.
      bind_err (random_choice_p (QLearning.available_actions ag) [1 - epsilon, epsilon] coin) (\<lambda>c.
      bind_err
        (if c \<noteq> 0
         then bind_err (random_choice_n (QLearning.available_actions ag) rnd)
                (\<lambda>a. Inr (a, QLearning.Q ag))
         else greedy_or_bias (QLearning.available_actions ag) (QLearning.Q ag) state)
        (\<lambda>(action, qt).
           Inr (action,
                ag\<lparr>QLearning.Q := qt,
                   QLearning.state_visits := visit_incr sv state,
                   QLearning.Nsa := Nsa_incr (QLearning.Nsa ag) state action\<rparr>)))))"

text \<open>
  \<^verbatim>\<open>QLearning.update_Q\<close>. The freeway copy writes
  \<^verbatim>\<open>self.Q[old_state][action] += alpha * (...)\<close>: Python reads the element, evaluates the
  right-hand side and stores the sum. The older copy writes the same sum as an assignment:
  it reads the element, the maximum of the next row and the element again, and then stores.
\<close>

definition QLearning_update_Q :: "'s QLearning \<Rightarrow> 's \<Rightarrow> 's \<Rightarrow> nat \<Rightarrow> real \<Rightarrow> error + 's QLearning" where
  "QLearning_update_Q ag old_state new_state action reward =
     (let nt = Nsa_touch (QLearning.Nsa ag) old_state action;
          n = QLearning.available_actions ag;
          q1 = dd_touch (np_zeros n) (QLearning.Q ag) old_state;
          q2 = dd_touch (np_zeros n) q1 new_state in
      bind_err (alpha_of (Nsa_get nt old_state action)) (\<lambda>alpha.
      bind_err (np_at (dd_get (np_zeros n) q1 old_state) action) (\<lambda>cur.
      bind_err (np_max (dd_get (np_zeros n) q2 new_state)) (\<lambda>best.
      bind_err (np_at (dd_get (np_zeros n) q2 old_state) action) (\<lambda>cur'.
      bind_err (np_set (dd_get (np_zeros n) q2 old_state) action
                  (cur + alpha * (reward + (QLearning.gamma ag * best) - cur'))) (\<lambda>row.
        Inr (ag\<lparr>QLearning.Q := q2(old_state \<mapsto> row), QLearning.Nsa := nt\<rparr>)))))))"

definition QLearning_update_Q_m :: "'s QLearning \<Rightarrow> 's \<Rightarrow> 's \<Rightarrow> nat \<Rightarrow> real \<Rightarrow> error + 's QLearning" where
  "QLearning_update_Q_m ag old_state new_state action reward =
     (let nt = Nsa_touch (QLearning.Nsa ag) old_state action;
          n = QLearning.available_actions ag;
          q1 = dd_touch (np_zeros n) (QLearning.Q ag) old_state;
          q2 = dd_touch (np_zeros n) q1 new_state in
      bind_err (alpha_of (Nsa_get nt old_state action)) (\<lambda>alpha.
      bind_err (np_at (dd_get (np_zeros n) q1 old_state) action) (\<lambda>cur.
      bind_err (np_max (dd_get (np_zeros n) q2 new_state)) (\<lambda>best.
      bind_err (np_at (dd_get (np_zeros n) q2 old_state) action) (\<lambda>cur'.
      bind_err (np_set (dd_get (np_zeros n) q2 old_state) action
                  (cur + alpha * (reward + (QLearning.gamma ag * best) - cur'))) (\<lambda>row.
        Inr (ag\<lparr>QLearning.Q := q2(old_state \<mapsto> row), QLearning.Nsa := nt\<rparr>)))))))"

subsection \<open>MonteCarloControl\<close>

text \<open>
  The freeway copy. The constructor makes the policy table \<^verbatim>\<open>pi = defaultdict(lambda: 1)\<close>.
  \<^verbatim>\<open>act\<close> reads \<^verbatim>\<open>state_visits\<close> and, on the greedy branch, \<^verbatim>\<open>pi\<close>; it stores
  nothing else. The discount \<^verbatim>\<open>gamma\<close> is a float, as the constructor declares it: the
  return \<^verbatim>\<open>G = self.gamma * G + R[t + 1]\<close> is then a float whatever the rewards are. (An
  integer \<^verbatim>\<open>gamma\<close> with integer rewards would make \<^verbatim>\<open>G\<close> a 64-bit numpy integer; that
  is outside the model.)
\<close>

record 's MonteCarloControl =
  gamma :: real
  available_actions :: nat
  N0 :: real
  Q :: "'s \<rightharpoonup> real list"
  Nsa :: "'s \<rightharpoonup> (nat \<rightharpoonup> nat)"
  state_visits :: "'s \<rightharpoonup> nat"
  pi :: "('s, nat) defaultdict"

definition MonteCarloControl_init :: "real \<Rightarrow> nat \<Rightarrow> real \<Rightarrow> 's MonteCarloControl" where
  "MonteCarloControl_init g n n0 =
     \<lparr>MonteCarloControl.gamma = g, MonteCarloControl.available_actions = n,
      MonteCarloControl.N0 = n0, MonteCarloControl.Q = Map.empty,
      MonteCarloControl.Nsa = Map.empty, MonteCarloControl.state_visits = Map.empty,
      MonteCarloControl.pi = ddict_new 1\<rparr>"

definition MonteCarloControl_act ::
  "'s MonteCarloControl \<Rightarrow> 's \<Rightarrow> nat \<Rightarrow> nat \<Rightarrow> error + (nat \<times> 's MonteCarloControl)" where
  "MonteCarloControl_act ag state coin rnd =
     (let sv = dd_touch 0 (MonteCarloControl.state_visits ag) state in
      bind_err (epsilon_of (MonteCarloControl.N0 ag) (dd_get 0 sv state)) (\<lambda>epsilon.
      bind_err (random_choice_p 2 [1 - epsilon, epsilon] coin) (\<lambda>c.
        if c \<noteq> 0
        then bind_err (random_choice_n (MonteCarloControl.available_actions ag) rnd)
               (\<lambda>action. Inr (action, ag\<lparr>MonteCarloControl.state_visits := sv\<rparr>))
        else Inr (ddict_get (MonteCarloControl.pi ag) state,
                  ag\<lparr>MonteCarloControl.state_visits := sv,
                     MonteCarloControl.pi := ddict_touch (MonteCarloControl.pi ag) state\<rparr>))))"

text \<open>
  An episode of the freeway copy: the lists \<^verbatim>\<open>S\<close>, \<^verbatim>\<open>A\<close>, \<^verbatim>\<open>R\<close>, the attribute
  \<^verbatim>\<open>length\<close> (here \<open>length_ep\<close>) and the two numbers that \<^verbatim>\<open>get_final_score()\<close> and
  \<^verbatim>\<open>get_total_reward()\<close> return.
\<close>

record 's episode =
  S :: "'s list"
  A :: "nat list"
  R :: "real list"
  length_ep :: nat
  final_score :: real
  total_reward :: real

text \<open>
  One pass of the loop body of \<^verbatim>\<open>update_policy\<close>, for the index \<open>t\<close>. Every table is
  keyed with \<^verbatim>\<open>S[t]\<close>, the element of \<^verbatim>\<open>np.array(episode.S)\<close>.
\<close>

definition MonteCarloControl_step ::
  "('s \<Rightarrow> error + 's) \<Rightarrow> 's episode \<Rightarrow> 's MonteCarloControl \<times> real \<Rightarrow> nat \<Rightarrow>
     error + ('s MonteCarloControl \<times> real)" where
  "MonteCarloControl_step np_elem ep st t =
     (let ag = fst st; G = snd st; n = MonteCarloControl.available_actions ag in
      bind_err (np_array_at np_elem (episode.S ep) t) (\<lambda>s.
      let sv = visit_incr (MonteCarloControl.state_visits ag) s in
      bind_err (np_at (episode.A ep) t) (\<lambda>a.
      let nt = Nsa_incr (MonteCarloControl.Nsa ag) s a in
      bind_err (alpha_of (Nsa_get nt s a)) (\<lambda>alpha.
      bind_err (np_at (episode.R ep) (t + 1)) (\<lambda>r.
      let G' = MonteCarloControl.gamma ag * G + r;
          row = dd_get (np_zeros n) (MonteCarloControl.Q ag) s in
      bind_err (np_at row a) (\<lambda>cur.
      bind_err (np_set row a (cur + alpha * (G' - cur))) (\<lambda>row'.
      bind_err (np_argmax row') (\<lambda>best.
        Inr (ag\<lparr>MonteCarloControl.Q := (MonteCarloControl.Q ag)(s \<mapsto> row'),
                MonteCarloControl.Nsa := nt,
                MonteCarloControl.state_visits := sv,
                MonteCarloControl.pi := ddict_set (MonteCarloControl.pi ag) s best\<rparr>, G')))))))))"

fun MonteCarloControl_loop ::
  "('s \<Rightarrow> error + 's) \<Rightarrow> 's episode \<Rightarrow> 's MonteCarloControl \<times> real \<Rightarrow> nat list \<Rightarrow>
     error + ('s MonteCarloControl \<times> real)" where
  "MonteCarloControl_loop np_elem ep st [] = Inr st"
| "MonteCarloControl_loop np_elem ep st (t # ts) =
     bind_err (MonteCarloControl_step np_elem ep st t)
       (\<lambda>st'. MonteCarloControl_loop np_elem ep st' ts)"

text \<open>
  \<^verbatim>\<open>update_policy\<close>: \<^verbatim>\<open>for t in reversed(range(episode.length - 1))\<close>, then the two
  numbers of the episode.
\<close>

definition MonteCarloControl_update_policy ::
  "('s \<Rightarrow> error + 's) \<Rightarrow> 's MonteCarloControl \<Rightarrow> 's episode \<Rightarrow>
     error + ('s MonteCarloControl \<times> real \<times> real)" where
  "MonteCarloControl_update_policy np_elem ag ep =
     bind_err (MonteCarloControl_loop np_elem ep (ag, 0) (rev [0..<episode.length_ep ep - 1]))
       (\<lambda>st. Inr (fst st, episode.final_score ep, episode.total_reward ep))"

text \<open>
  \<^verbatim>\<open>MonteCarloControlFixedEpsilon\<close> has the same tables and the same \<^verbatim>\<open>update_policy\<close>;
  its \<^verbatim>\<open>act\<close> draws with the stored \<^verbatim>\<open>epsilon\<close> and reads only, on the greedy branch,
  \<^verbatim>\<open>pi\<close>.
\<close>

record 's MonteCarloControlFixedEpsilon =
  gamma :: real
  available_actions :: nat
  epsilon :: real
  Q :: "'s \<rightharpoonup> real list"
  Nsa :: "'s \<rightharpoonup> (nat \<rightharpoonup> nat)"
  state_visits :: "'s \<rightharpoonup> nat"
  pi :: "('s, nat) defaultdict"

definition MonteCarloControlFixedEpsilon_init ::
  "real \<Rightarrow> nat \<Rightarrow> real \<Rightarrow> 's MonteCarloControlFixedEpsilon" where
  "MonteCarloControlFixedEpsilon_init g n e =
     \<lparr>MonteCarloControlFixedEpsilon.gamma = g,
      MonteCarloControlFixedEpsilon.available_actions = n,
      MonteCarloControlFixedEpsilon.epsilon = e,
      MonteCarloControlFixedEpsilon.Q = Map.empty,
      MonteCarloControlFixedEpsilon.Nsa = Map.empty,
      MonteCarloControlFixedEpsilon.state_visits = Map.empty,
      MonteCarloControlFixedEpsilon.pi = ddict_new 1\<rparr>"

definition MonteCarloControlFixedEpsilon_act ::
  "'s MonteCarloControlFixedEpsilon \<Rightarrow> 's \<Rightarrow> nat \<Rightarrow> nat \<Rightarrow>
     error + (nat \<times> 's MonteCarloControlFixedEpsilon)" where
  "MonteCarloControlFixedEpsilon_act ag state coin rnd =
     bind_err (random_choice_p 2 [1 - MonteCarloControlFixedEpsilon.epsilon ag,
                                  MonteCarloControlFixedEpsilon.epsilon ag] coin) (\<lambda>c.
       if c \<noteq> 0
       then bind_err (random_choice_n (MonteCarloControlFixedEpsilon.available_actions ag) rnd)
              (\<lambda>action. Inr (action, ag))
       else Inr (ddict_get (MonteCarloControlFixedEpsilon.pi ag) state,
                 ag\<lparr>MonteCarloControlFixedEpsilon.pi :=
                      ddict_touch (MonteCarloControlFixedEpsilon.pi ag) state\<rparr>))"

definition MonteCarloControlFixedEpsilon_step ::
  "('s \<Rightarrow> error + 's) \<Rightarrow> 's episode \<Rightarrow> 's MonteCarloControlFixedEpsilon \<times> real \<Rightarrow> nat \<Rightarrow>
     error + ('s MonteCarloControlFixedEpsilon \<times> real)" where
  "MonteCarloControlFixedEpsilon_step np_elem ep st t =
     (let ag = fst st; G = snd st; n = MonteCarloControlFixedEpsilon.available_actions ag in
      bind_err (np_array_at np_elem (episode.S ep) t) (\<lambda>s.
      let sv = visit_incr (MonteCarloControlFixedEpsilon.state_visits ag) s in
      bind_err (np_at (episode.A ep) t) (\<lambda>a.
      let nt = Nsa_incr (MonteCarloControlFixedEpsilon.Nsa ag) s a in
      bind_err (alpha_of (Nsa_get nt s a)) (\<lambda>alpha.
      bind_err (np_at (episode.R ep) (t + 1)) (\<lambda>r.
      let G' = MonteCarloControlFixedEpsilon.gamma ag * G + r;
          row = dd_get (np_zeros n) (MonteCarloControlFixedEpsilon.Q ag) s in
      bind_err (np_at row a) (\<lambda>cur.
      bind_err (np_set row a (cur + alpha * (G' - cur))) (\<lambda>row'.
      bind_err (np_argmax row') (\<lambda>best.
        Inr (ag\<lparr>MonteCarloControlFixedEpsilon.Q :=
                   (MonteCarloControlFixedEpsilon.Q ag)(s \<mapsto> row'),
                MonteCarloControlFixedEpsilon.Nsa := nt,
                MonteCarloControlFixedEpsilon.state_visits := sv,
                MonteCarloControlFixedEpsilon.pi :=
                   ddict_set (MonteCarloControlFixedEpsilon.pi ag) s best\<rparr>, G')))))))))"

fun MonteCarloControlFixedEpsilon_loop ::
  "('s \<Rightarrow> error + 's) \<Rightarrow> 's episode \<Rightarrow> 's MonteCarloControlFixedEpsilon \<times> real \<Rightarrow> nat list \<Rightarrow>
     error + ('s MonteCarloControlFixedEpsilon \<times> real)" where
  "MonteCarloControlFixedEpsilon_loop np_elem ep st [] = Inr st"
| "MonteCarloControlFixedEpsilon_loop np_elem ep st (t # ts) =
     bind_err (MonteCarloControlFixedEpsilon_step np_elem ep st t)
       (\<lambda>st'. MonteCarloControlFixedEpsilon_loop np_elem ep st' ts)"

definition MonteCarloControlFixedEpsilon_update_policy ::
  "('s \<Rightarrow> error + 's) \<Rightarrow> 's MonteCarloControlFixedEpsilon \<Rightarrow> 's episode \<Rightarrow>
     error + ('s MonteCarloControlFixedEpsilon \<times> real \<times> real)" where
  "MonteCarloControlFixedEpsilon_update_policy np_elem ag ep =
     bind_err (MonteCarloControlFixedEpsilon_loop np_elem ep (ag, 0)
                 (rev [0..<episode.length_ep ep - 1]))
       (\<lambda>st. Inr (fst st, episode.final_score ep, episode.total_reward ep))"

text \<open>
  The older copy keeps the list of returns of every pair and sets the estimate to their
  mean. Its episode is iterated as a sequence of 4-tuples, of which the method uses the
  first three components; the states are again read from \<^verbatim>\<open>np.array\<close> of their list.
\<close>

record 's MonteCarloControl_m =
  gamma :: real
  available_actions :: nat
  Q :: "'s \<rightharpoonup> real list"
  Returns :: "'s \<rightharpoonup> (nat \<rightharpoonup> real list)"
  pi :: "('s, nat) defaultdict"
  N0 :: real

definition MonteCarloControl_init_m :: "real \<Rightarrow> nat \<Rightarrow> real \<Rightarrow> 's MonteCarloControl_m" where
  "MonteCarloControl_init_m g n n0 =
     \<lparr>MonteCarloControl_m.gamma = g, MonteCarloControl_m.available_actions = n,
      MonteCarloControl_m.Q = Map.empty, MonteCarloControl_m.Returns = Map.empty,
      MonteCarloControl_m.pi = ddict_new 1, MonteCarloControl_m.N0 = n0\<rparr>"

record ('s, 'x) episode_m =
  steps :: "('s \<times> nat \<times> real \<times> 'x) list"
  length_ep :: nat
  final_score :: real
  total_reward :: real

definition MonteCarloControl_step_m ::
  "('s \<Rightarrow> error + 's) \<Rightarrow> ('s, 'x) episode_m \<Rightarrow> 's MonteCarloControl_m \<times> real \<Rightarrow> nat \<Rightarrow>
     error + ('s MonteCarloControl_m \<times> real)" where
  "MonteCarloControl_step_m np_elem ep st t =
     (let ag = fst st; G = snd st; n = MonteCarloControl_m.available_actions ag;
          Ss = map (\<lambda>(s, a, r, x). s) (steps ep);
          As = map (\<lambda>(s, a, r, x). a) (steps ep);
          Rs = map (\<lambda>(s, a, r, x). r) (steps ep) in
      bind_err (np_at Rs (t + 1)) (\<lambda>r.
      let G' = MonteCarloControl_m.gamma ag * G + r in
      bind_err (np_array_at np_elem Ss t) (\<lambda>s.
      bind_err (np_at As t) (\<lambda>a.
      let inner = dd_get Map.empty (MonteCarloControl_m.Returns ag) s;
          rets = dd_get [] inner a @ [G'];
          rt = (MonteCarloControl_m.Returns ag)(s \<mapsto> inner(a \<mapsto> rets));
          row = dd_get (np_zeros n) (MonteCarloControl_m.Q ag) s in
      bind_err (np_set row a (sum_list rets / real (length rets))) (\<lambda>row'.
      bind_err (np_argmax row') (\<lambda>best.
        Inr (ag\<lparr>MonteCarloControl_m.Q := (MonteCarloControl_m.Q ag)(s \<mapsto> row'),
                MonteCarloControl_m.Returns := rt,
                MonteCarloControl_m.pi := ddict_set (MonteCarloControl_m.pi ag) s best\<rparr>,
             G')))))))"

fun MonteCarloControl_loop_m ::
  "('s \<Rightarrow> error + 's) \<Rightarrow> ('s, 'x) episode_m \<Rightarrow> 's MonteCarloControl_m \<times> real \<Rightarrow> nat list \<Rightarrow>
     error + ('s MonteCarloControl_m \<times> real)" where
  "MonteCarloControl_loop_m np_elem ep st [] = Inr st"
| "MonteCarloControl_loop_m np_elem ep st (t # ts) =
     bind_err (MonteCarloControl_step_m np_elem ep st t)
       (\<lambda>st'. MonteCarloControl_loop_m np_elem ep st' ts)"

definition MonteCarloControl_update_policy_m ::
  "('s \<Rightarrow> error + 's) \<Rightarrow> 's MonteCarloControl_m \<Rightarrow> ('s, 'x) episode_m \<Rightarrow>
     error + ('s MonteCarloControl_m \<times> real \<times> real)" where
  "MonteCarloControl_update_policy_m np_elem ag ep =
     bind_err (MonteCarloControl_loop_m np_elem ep (ag, 0)
                 (rev [0..<episode_m.length_ep ep - 1]))
       (\<lambda>st. Inr (fst st, episode_m.final_score ep, episode_m.total_reward ep))"

subsection \<open>Agents with a linear approximation\<close>

text \<open>
  \<^verbatim>\<open>createFeature\<close> and \<^verbatim>\<open>get_features\<close> go through a \<^verbatim>\<open>StandardScaler\<close> of
  scikit-learn, which is not part of the repository: the feature vector of a state and an
  action is an argument \<open>feat\<close> of the model, and may fail. \<^verbatim>\<open>np.dot\<close> of two vectors
  of different lengths raises \<^verbatim>\<open>ValueError\<close>. \<open>collect\<close> is the list comprehension
  \<^verbatim>\<open>[f(act) for act in range(n)]\<close>.
\<close>

definition np_dot :: "real list \<Rightarrow> real list \<Rightarrow> error + real" where
  "np_dot xs ys =
     (if length xs = length ys then Inr (sum_list (map2 (*) xs ys)) else Inl ValueError)"

fun collect :: "(nat \<Rightarrow> error + 'a) \<Rightarrow> nat list \<Rightarrow> error + 'a list" where
  "collect f [] = Inr []"
| "collect f (i # is) = bind_err (f i) (\<lambda>y. bind_err (collect f is) (\<lambda>ys. Inr (y # ys)))"

record 's QLearningLinearApprox =
  alpha :: real
  gamma :: real
  available_actions :: nat
  N0 :: real
  fixed_alpha :: bool
  feat_type :: string
  W :: "real list"
  state_visits :: "'s \<rightharpoonup> nat"
  Nsa :: "'s \<rightharpoonup> (nat \<rightharpoonup> nat)"

definition QLearningLinearApprox_init ::
  "real \<Rightarrow> real \<Rightarrow> nat \<Rightarrow> real \<Rightarrow> nat \<Rightarrow> bool \<Rightarrow> string \<Rightarrow> 's QLearningLinearApprox" where
  "QLearningLinearApprox_init al g n n0 weights_length fixed ft =
     \<lparr>QLearningLinearApprox.alpha = al, QLearningLinearApprox.gamma = g,
      QLearningLinearApprox.available_actions = n, QLearningLinearApprox.N0 = n0,
      QLearningLinearApprox.fixed_alpha = fixed, QLearningLinearApprox.feat_type = ft,
      QLearningLinearApprox.W = np_zeros (weights_length + 2),
      QLearningLinearApprox.state_visits = Map.empty,
      QLearningLinearApprox.Nsa = Map.empty\<rparr>"

definition getApproximation ::
  "('s \<Rightarrow> nat \<Rightarrow> error + real list) \<Rightarrow> 's QLearningLinearApprox \<Rightarrow> 's \<Rightarrow> nat \<Rightarrow> error + real" where
  "getApproximation feat ag state action =
     bind_err (feat state action) (\<lambda>feature. np_dot feature (QLearningLinearApprox.W ag))"

definition QLearningLinearApprox_act ::
  "('s \<Rightarrow> nat \<Rightarrow> error + real list) \<Rightarrow> 's QLearningLinearApprox \<Rightarrow> 's \<Rightarrow> nat \<Rightarrow> nat \<Rightarrow>
     error + (nat \<times> 's QLearningLinearApprox)" where
  "QLearningLinearApprox_act feat ag state coin rnd =
     (let sv = dd_touch 0 (QLearningLinearApprox.state_visits ag) state;
          n = QLearningLinearApprox.available_actions ag in
      bind_err (epsilon_of (QLearningLinearApprox.N0 ag) (dd_get 0 sv state)) (\<lambda>epsilon.
      bind_err (random_choice_p n [1 - epsilon, epsilon] coin) (\<lambda>c.
      bind_err
        (if c \<noteq> 0 then random_choice_n n rnd
         else if dd_get 0 sv state = 0 then Inr 1
         else bind_err (collect (getApproximation feat ag state) [0..<n]) np_argmax)
        (\<lambda>action.
           Inr (action,
                ag\<lparr>QLearningLinearApprox.state_visits := visit_incr sv state,
                   QLearningLinearApprox.Nsa :=
                     Nsa_incr (QLearningLinearApprox.Nsa ag) state action\<rparr>)))))"

text \<open>
  \<^verbatim>\<open>SarsaLFA\<close>. Its weights come from \<^verbatim>\<open>np.random.rand(2+state_size)\<close>, which raises
  \<^verbatim>\<open>ValueError\<close> for a negative length; \<open>rand\<close> is the sample it returns for a length.
\<close>

record 's SarsaLFA =
  gamma :: real
  available_actions :: nat
  N0 :: real
  alpha :: real
  lamb :: real
  weights :: "real list"
  state_visits :: "'s \<rightharpoonup> nat"
  feat_type :: string

definition SarsaLFA_init ::
  "real \<Rightarrow> int \<Rightarrow> nat \<Rightarrow> real \<Rightarrow> real \<Rightarrow> real \<Rightarrow> (nat \<Rightarrow> real list) \<Rightarrow> error + 's SarsaLFA" where
  "SarsaLFA_init g state_size n n0 al la rand =
     (if 2 + state_size < 0 then Inl ValueError
      else Inr \<lparr>SarsaLFA.gamma = g, SarsaLFA.available_actions = n, SarsaLFA.N0 = n0,
                SarsaLFA.alpha = al, SarsaLFA.lamb = la,
                SarsaLFA.weights = rand (nat (2 + state_size)),
                SarsaLFA.state_visits = Map.empty, SarsaLFA.feat_type = ''all''\<rparr>)"

definition SarsaLFA_qw ::
  "('s \<Rightarrow> nat \<Rightarrow> error + real list) \<Rightarrow> 's SarsaLFA \<Rightarrow> 's \<Rightarrow> nat \<Rightarrow> error + real" where
  "SarsaLFA_qw feat ag state action =
     bind_err (feat state action) (\<lambda>feature. np_dot feature (SarsaLFA.weights ag))"

definition SarsaLFA_act ::
  "('s \<Rightarrow> nat \<Rightarrow> error + real list) \<Rightarrow> 's SarsaLFA \<Rightarrow> 's \<Rightarrow> nat \<Rightarrow> nat \<Rightarrow>
     error + (nat \<times> 's SarsaLFA)" where
  "SarsaLFA_act feat ag state coin rnd =
     (let sv = dd_touch 0 (SarsaLFA.state_visits ag) state;
          n = SarsaLFA.available_actions ag in
      bind_err (epsilon_of (SarsaLFA.N0 ag) (dd_get 0 sv state)) (\<lambda>epsilon.
      bind_err (random_choice_p n [1 - epsilon, epsilon] coin) (\<lambda>c.
      bind_err
        (if c \<noteq> 0 then random_choice_n n rnd
         else if dd_get 0 sv state = 0 then Inr 1
         else bind_err (collect (SarsaLFA_qw feat ag state) [0..<n]) np_argmax)
        (\<lambda>action. Inr (action, ag\<lparr>SarsaLFA.state_visits := visit_incr sv state\<rparr>)))))"

text \<open>
  \<^verbatim>\<open>SarsaLFAADAM\<close>. The moments \<^verbatim>\<open>m\<close> and \<^verbatim>\<open>v\<close> start as the number 0 and are arrays
  after the first call of \<^verbatim>\<open>adam\<close>: \<open>nd\<close> is a number or a one-dimensional array, and
  \<open>broadcast\<close> combines it with the array \<^verbatim>\<open>g\<close> as numpy does, raising \<^verbatim>\<open>ValueError\<close>
  when two arrays differ in length and neither has length one.
\<close>

datatype nd = Scalar real | Arr "real list"

definition broadcast :: "(real \<Rightarrow> real \<Rightarrow> real) \<Rightarrow> nd \<Rightarrow> real list \<Rightarrow> error + real list" where
  "broadcast f x ys =
     (case x of
        Scalar c \<Rightarrow> Inr (map (f c) ys)
      | Arr xs \<Rightarrow>
          if length xs = length ys then Inr (map2 f xs ys)
          else if length xs = 1 then Inr (map (f (xs ! 0)) ys)
          else if length ys = 1 then Inr (map (\<lambda>c. f c (ys ! 0)) xs)
          else Inl ValueError)"

text \<open>
  Dividing an array by zero, or taking the square root of a negative entry, makes numpy
  produce \<^verbatim>\<open>inf\<close> or \<^verbatim>\<open>nan\<close> entries and go on. Real numbers have neither: the model
  stops there with \<open>NonFinite\<close>.
\<close>

definition np_div_scalar :: "real list \<Rightarrow> real \<Rightarrow> error + real list" where
  "np_div_scalar xs d =
     (if xs = [] then Inr [] else if d = 0 then Inl NonFinite else Inr (map (\<lambda>x. x / d) xs))"

definition np_sqrt :: "real list \<Rightarrow> error + real list" where
  "np_sqrt xs = (if list_ex (\<lambda>x. x < 0) xs then Inl NonFinite else Inr (map sqrt xs))"

definition np_div :: "real list \<Rightarrow> real list \<Rightarrow> error + real list" where
  "np_div xs ds =
     bind_err (broadcast (\<lambda>x d. x / d) (Arr xs) ds) (\<lambda>qs.
       if qs \<noteq> [] \<and> list_ex (\<lambda>d. d = 0) ds then Inl NonFinite else Inr qs)"

record 's SarsaLFAADAM =
  gamma :: real
  available_actions :: nat
  N0 :: real
  alpha :: real
  lamb :: real
  weights :: "real list"
  state_visits :: "'s \<rightharpoonup> nat"
  feat_type :: string
  m :: nd
  v :: nd
  beta_1 :: real
  beta_2 :: real
  epsilon :: real

text \<open>
  \<^verbatim>\<open>__init__\<close> stores its argument \<^verbatim>\<open>alpha\<close> and, at the end of its Adam block,
  \<^verbatim>\<open>self.alpha=0.001\<close> is assigned over it. The literal \<^verbatim>\<open>10e-5\<close> is ten times ten to the minus five.
\<close>

definition SarsaLFAADAM_init ::
  "real \<Rightarrow> int \<Rightarrow> nat \<Rightarrow> real \<Rightarrow> real \<Rightarrow> real \<Rightarrow> (nat \<Rightarrow> real list) \<Rightarrow> error + 's SarsaLFAADAM" where
  "SarsaLFAADAM_init g state_size n n0 al la rand =
     (if 2 + state_size < 0 then Inl ValueError
      else Inr (\<lparr>SarsaLFAADAM.gamma = g, SarsaLFAADAM.available_actions = n,
                 SarsaLFAADAM.N0 = n0, SarsaLFAADAM.alpha = al, SarsaLFAADAM.lamb = la,
                 SarsaLFAADAM.weights = rand (nat (2 + state_size)),
                 SarsaLFAADAM.state_visits = Map.empty, SarsaLFAADAM.feat_type = ''all'',
                 SarsaLFAADAM.m = Scalar 0, SarsaLFAADAM.v = Scalar 0,
                 SarsaLFAADAM.beta_1 = 9 / 10, SarsaLFAADAM.beta_2 = 999 / 1000,
                 SarsaLFAADAM.epsilon = 10 * (1 / 10 ^ 5)\<rparr>
                \<lparr>SarsaLFAADAM.alpha := 1 / 1000\<rparr>))"

text \<open>
  \<^verbatim>\<open>adam\<close>, in three parts: the two moments are updated from \<^verbatim>\<open>g\<close>; the denominator of
  the step is \<^verbatim>\<open>np.sqrt(v_hat) + self.epsilon\<close>; the step is
  \<^verbatim>\<open>self.alpha * m_hat\<close> divided by it. The step count \<open>t\<close> is an integer.
\<close>

definition adam_moments :: "'s SarsaLFAADAM \<Rightarrow> real list \<Rightarrow> error + 's SarsaLFAADAM" where
  "adam_moments ag g =
     bind_err (broadcast (\<lambda>c x. SarsaLFAADAM.beta_1 ag * c + (1 - SarsaLFAADAM.beta_1 ag) * x)
                 (SarsaLFAADAM.m ag) g) (\<lambda>m'.
     bind_err (broadcast (\<lambda>c x. SarsaLFAADAM.beta_2 ag * c + (1 - SarsaLFAADAM.beta_2 ag) * x\<^sup>2)
                 (SarsaLFAADAM.v ag) g) (\<lambda>v'.
       Inr (ag\<lparr>SarsaLFAADAM.m := Arr m', SarsaLFAADAM.v := Arr v'\<rparr>)))"

definition nd_list :: "nd \<Rightarrow> real list" where
  "nd_list x = (case x of Scalar c \<Rightarrow> [c] | Arr xs \<Rightarrow> xs)"

definition adam_denominator :: "'s SarsaLFAADAM \<Rightarrow> int \<Rightarrow> error + real list" where
  "adam_denominator ag t =
     bind_err (np_div_scalar (nd_list (SarsaLFAADAM.v ag)) (1 - SarsaLFAADAM.beta_2 ag powi t))
       (\<lambda>v_hat.
     bind_err (np_sqrt v_hat) (\<lambda>root.
       Inr (map (\<lambda>x. x + SarsaLFAADAM.epsilon ag) root)))"

definition adam :: "'s SarsaLFAADAM \<Rightarrow> real list \<Rightarrow> int \<Rightarrow> error + (real list \<times> 's SarsaLFAADAM)" where
  "adam ag g t =
     bind_err (adam_moments ag g) (\<lambda>ag'.
     bind_err (np_div_scalar (nd_list (SarsaLFAADAM.m ag')) (1 - SarsaLFAADAM.beta_1 ag' powi t))
       (\<lambda>m_hat.
     bind_err (adam_denominator ag' t) (\<lambda>den.
     bind_err (np_div (map (\<lambda>x. SarsaLFAADAM.alpha ag' * x) m_hat) den) (\<lambda>step.
       Inr (step, ag')))))"

definition SarsaLFAADAM_qw ::
  "('s \<Rightarrow> nat \<Rightarrow> error + real list) \<Rightarrow> 's SarsaLFAADAM \<Rightarrow> 's \<Rightarrow> nat \<Rightarrow> error + real" where
  "SarsaLFAADAM_qw feat ag state action =
     bind_err (feat state action) (\<lambda>feature. np_dot feature (SarsaLFAADAM.weights ag))"

definition SarsaLFAADAM_act ::
  "('s \<Rightarrow> nat \<Rightarrow> error + real list) \<Rightarrow> 's SarsaLFAADAM \<Rightarrow> 's \<Rightarrow> nat \<Rightarrow> nat \<Rightarrow>
     error + (nat \<times> 's SarsaLFAADAM)" where
  "SarsaLFAADAM_act feat ag state coin rnd =
     (let sv = dd_touch 0 (SarsaLFAADAM.state_visits ag) state;
          n = SarsaLFAADAM.available_actions ag in
      bind_err (epsilon_of (SarsaLFAADAM.N0 ag) (dd_get 0 sv state)) (\<lambda>epsilon.
      bind_err (random_choice_p n [1 - epsilon, epsilon] coin) (\<lambda>c.
      bind_err
        (if c \<noteq> 0 then random_choice_n n rnd
         else if dd_get 0 sv state = 0 then Inr 1
         else bind_err (collect (SarsaLFAADAM_qw feat ag state) [0..<n]) np_argmax)
        (\<lambda>action. Inr (action, ag\<lparr>SarsaLFAADAM.state_visits := visit_incr sv state\<rparr>)))))"

subsection \<open>SarsaLambda\<close>

text \<open>
  \<^verbatim>\<open>update_Q\<close> iterates over the keys of the trace table \<^verbatim>\<open>E\<close>, in the order in which
  they were inserted: \<^verbatim>\<open>E\<close> is an association list, \<open>al_get\<close> reads it with the default
  of the factory, and \<^verbatim>\<open>AList.update\<close> overwrites an entry in place or appends a new one.
\<close>

definition al_get :: "'v \<Rightarrow> ('k \<times> 'v) list \<Rightarrow> 'k \<Rightarrow> 'v" where
  "al_get d al k = (case map_of al k of None \<Rightarrow> d | Some x \<Rightarrow> x)"

record 's SarsaLambda =
  gamma :: real
  available_actions :: nat
  N0 :: real
  lambd :: real
  Q :: "'s \<rightharpoonup> real list"
  state_visits :: "'s \<rightharpoonup> nat"
  Nsa :: "'s \<rightharpoonup> (nat \<rightharpoonup> nat)"
  E :: "('s \<times> real list) list"

definition SarsaLambda_init :: "real \<Rightarrow> nat \<Rightarrow> real \<Rightarrow> real \<Rightarrow> 's SarsaLambda" where
  "SarsaLambda_init g n n0 la =
     \<lparr>SarsaLambda.gamma = g, SarsaLambda.available_actions = n, SarsaLambda.N0 = n0,
      SarsaLambda.lambd = la, SarsaLambda.Q = Map.empty, SarsaLambda.state_visits = Map.empty,
      SarsaLambda.Nsa = Map.empty, SarsaLambda.E = []\<rparr>"

definition SarsaLambda_act ::
  "'s SarsaLambda \<Rightarrow> 's \<Rightarrow> nat \<Rightarrow> nat \<Rightarrow> error + (nat \<times> 's SarsaLambda)" where
  "SarsaLambda_act ag state coin rnd =
     (let sv = dd_touch 0 (SarsaLambda.state_visits ag) state;
          n = SarsaLambda.available_actions ag in
      bind_err (epsilon_of (SarsaLambda.N0 ag) (dd_get 0 sv state)) (\<lambda>epsilon.
      bind_err (random_choice_p 2 [1 - epsilon, epsilon] coin) (\<lambda>c.
      bind_err
        (if c \<noteq> 0
         then bind_err (random_choice_n n rnd) (\<lambda>a. Inr (a, SarsaLambda.Q ag))
         else greedy_or_bias n (SarsaLambda.Q ag) state)
        (\<lambda>(action, qt).
           let row = al_get (np_zeros n) (SarsaLambda.E ag) state in
           bind_err (np_at row action) (\<lambda>cur.
           bind_err (np_set row action (cur + 1)) (\<lambda>row'.
             Inr (action,
                  ag\<lparr>SarsaLambda.Q := qt,
                     SarsaLambda.state_visits := visit_incr sv state,
                     SarsaLambda.Nsa := Nsa_incr (SarsaLambda.Nsa ag) state action,
                     SarsaLambda.E := AList.update state row' (SarsaLambda.E ag)\<rparr>)))))))"

text \<open>
  The body of the two loops of \<^verbatim>\<open>update_Q\<close>, for one key \<open>s\<close> and one action \<open>a\<close>:
  \<^verbatim>\<open>self.Q[old_s][old_a] += alpha * delta * self.E[s][a]\<close> and then
  \<^verbatim>\<open>self.E[s][a] = self.gamma * self.lambd * self.E[s][a]\<close>.
\<close>

definition SarsaLambda_body ::
  "'s \<Rightarrow> nat \<Rightarrow> real \<Rightarrow> real \<Rightarrow> 's \<Rightarrow> 's SarsaLambda \<Rightarrow> nat \<Rightarrow> error + 's SarsaLambda" where
  "SarsaLambda_body old_s old_a al delta s ag a =
     (let n = SarsaLambda.available_actions ag;
          qrow = dd_get (np_zeros n) (SarsaLambda.Q ag) old_s in
      bind_err (np_at qrow old_a) (\<lambda>cur.
      bind_err (np_at (al_get (np_zeros n) (SarsaLambda.E ag) s) a) (\<lambda>e.
      bind_err (np_set qrow old_a (cur + al * delta * e)) (\<lambda>qrow'.
      let ag1 = ag\<lparr>SarsaLambda.Q := (SarsaLambda.Q ag)(old_s \<mapsto> qrow')\<rparr>;
          erow = al_get (np_zeros n) (SarsaLambda.E ag1) s in
      bind_err (np_at erow a) (\<lambda>e'.
      bind_err (np_set erow a (SarsaLambda.gamma ag1 * SarsaLambda.lambd ag1 * e')) (\<lambda>erow'.
        Inr (ag1\<lparr>SarsaLambda.E := AList.update s erow' (SarsaLambda.E ag1)\<rparr>)))))))"

fun SarsaLambda_actions ::
  "'s \<Rightarrow> nat \<Rightarrow> real \<Rightarrow> real \<Rightarrow> 's \<Rightarrow> 's SarsaLambda \<Rightarrow> nat list \<Rightarrow> error + 's SarsaLambda" where
  "SarsaLambda_actions old_s old_a al delta s ag [] = Inr ag"
| "SarsaLambda_actions old_s old_a al delta s ag (a # as) =
     bind_err (SarsaLambda_body old_s old_a al delta s ag a)
       (\<lambda>ag'. SarsaLambda_actions old_s old_a al delta s ag' as)"

fun SarsaLambda_keys ::
  "'s \<Rightarrow> nat \<Rightarrow> real \<Rightarrow> real \<Rightarrow> 's SarsaLambda \<Rightarrow> 's list \<Rightarrow> error + 's SarsaLambda" where
  "SarsaLambda_keys old_s old_a al delta ag [] = Inr ag"
| "SarsaLambda_keys old_s old_a al delta ag (s # ss) =
     bind_err (SarsaLambda_actions old_s old_a al delta s ag
                 [0..<SarsaLambda.available_actions ag])
       (\<lambda>ag'. SarsaLambda_keys old_s old_a al delta ag' ss)"

definition SarsaLambda_update_Q ::
  "'s SarsaLambda \<Rightarrow> 's \<Rightarrow> 's \<Rightarrow> nat \<Rightarrow> nat \<Rightarrow> real \<Rightarrow> error + 's SarsaLambda" where
  "SarsaLambda_update_Q ag old_s new_s old_a new_a reward =
     (let n = SarsaLambda.available_actions ag;
          q1 = dd_touch (np_zeros n) (SarsaLambda.Q ag) new_s;
          q2 = dd_touch (np_zeros n) q1 old_s;
          nt = Nsa_touch (SarsaLambda.Nsa ag) old_s old_a in
      bind_err (np_at (dd_get (np_zeros n) q1 new_s) new_a) (\<lambda>qnew.
      bind_err (np_at (dd_get (np_zeros n) q2 old_s) old_a) (\<lambda>qold.
      let delta = reward + SarsaLambda.gamma ag * qnew - qold in
      bind_err (alpha_of (Nsa_get nt old_s old_a)) (\<lambda>al.
        SarsaLambda_keys old_s old_a al delta
          (ag\<lparr>SarsaLambda.Q := q2, SarsaLambda.Nsa := nt\<rparr>)
          (map fst (SarsaLambda.E ag))))))"

definition SarsaLambda_reset_E :: "'s SarsaLambda \<Rightarrow> 's SarsaLambda" where
  "SarsaLambda_reset_E ag = ag\<lparr>SarsaLambda.E := []\<rparr>"

subsection \<open>Reading the tables\<close>

text \<open>
  \<open>Q_row\<close> and \<open>Q_val\<close> are what \<^verbatim>\<open>self.Q[s]\<close> and \<^verbatim>\<open>self.Q[s][a]\<close> evaluate to.
  Every row that the agents store is created by \<^verbatim>\<open>np.zeros(self.available_actions)\<close>
  and only ever updated element by element: \<open>Q_rows_ok\<close> states that the stored rows have
  that length.
\<close>

definition Q_rows_ok :: "nat \<Rightarrow> ('s \<rightharpoonup> real list) \<Rightarrow> bool" where
  "Q_rows_ok n qt = (\<forall>row \<in> ran qt. length row = n)"

definition Q_row :: "'s QLearning \<Rightarrow> 's \<Rightarrow> real list" where
  "Q_row ag s = dd_get (np_zeros (QLearning.available_actions ag)) (QLearning.Q ag) s"

definition Q_val :: "'s QLearning \<Rightarrow> 's \<Rightarrow> nat \<Rightarrow> real" where
  "Q_val ag s a = Q_row ag s ! a"

text \<open>An agent with three actions that has seen the states 5 and 7.\<close>

definition example_QLearning :: "nat QLearning" where
  "example_QLearning =
     \<lparr>QLearning.gamma = 1 / 2, QLearning.available_actions = 3, QLearning.N0 = 1,
      QLearning.Q = [5 \<mapsto> [0, 0, 1 / 2], 7 \<mapsto> [1, 3, 2]],
      QLearning.state_visits = [5 \<mapsto> 2, 7 \<mapsto> 1],
      QLearning.Nsa = [5 \<mapsto> [2 \<mapsto> 2], 7 \<mapsto> [1 \<mapsto> 1]]\<rparr>"

subsection \<open>The invariant of the Adam state\<close>

text \<open>
  \<^verbatim>\<open>__init__\<close> sets the two decay rates and \<^verbatim>\<open>epsilon\<close>, no method assigns them again,
  and the second moment starts at 0 and is only ever replaced by
  \<^verbatim>\<open>beta_2 * v + (1 - beta_2) * g ** 2\<close>: its entries are never negative.
\<close>

definition nd_nonneg :: "nd \<Rightarrow> bool" where
  "nd_nonneg x = list_all (\<lambda>c. 0 \<le> c) (nd_list x)"

definition adam_inv :: "'s SarsaLFAADAM \<Rightarrow> bool" where
  "adam_inv ag = (SarsaLFAADAM.beta_1 ag = 9 / 10 \<and> SarsaLFAADAM.beta_2 ag = 999 / 1000 \<and>
     SarsaLFAADAM.epsilon ag = 1 / 10000 \<and> nd_nonneg (SarsaLFAADAM.v ag))"

text \<open>The agent that \<^verbatim>\<open>SarsaLFAADAM(1, 1, 3, 1, 0.5, 0)\<close> constructs when the random weights are all 0.\<close>

definition example_SarsaLFAADAM :: "nat SarsaLFAADAM" where
  "example_SarsaLFAADAM =
     \<lparr>SarsaLFAADAM.gamma = 1, SarsaLFAADAM.available_actions = 3, SarsaLFAADAM.N0 = 1,
      SarsaLFAADAM.alpha = 1 / 1000, SarsaLFAADAM.lamb = 0, SarsaLFAADAM.weights = [0, 0, 0],
      SarsaLFAADAM.state_visits = Map.empty, SarsaLFAADAM.feat_type = ''all'',
      SarsaLFAADAM.m = Scalar 0, SarsaLFAADAM.v = Scalar 0,
      SarsaLFAADAM.beta_1 = 9 / 10, SarsaLFAADAM.beta_2 = 999 / 1000,
      SarsaLFAADAM.epsilon = 1 / 10000\<rparr>"

subsection \<open>Reading the Monte Carlo tables\<close>

text \<open>
  The estimate \<^verbatim>\<open>Q[s][a]\<close> of a Monte Carlo agent, the list \<^verbatim>\<open>Returns[s][a]\<close> of the
  older copy, and the estimate in the agent that \<^verbatim>\<open>update_policy\<close> leaves behind.
\<close>

definition MC_Q_val :: "'s MonteCarloControl \<Rightarrow> 's \<Rightarrow> nat \<Rightarrow> real" where
  "MC_Q_val ag s a =
     dd_get (np_zeros (MonteCarloControl.available_actions ag)) (MonteCarloControl.Q ag) s ! a"

definition MC_Q_val_m :: "'s MonteCarloControl_m \<Rightarrow> 's \<Rightarrow> nat \<Rightarrow> real" where
  "MC_Q_val_m ag s a =
     dd_get (np_zeros (MonteCarloControl_m.available_actions ag)) (MonteCarloControl_m.Q ag) s ! a"

definition Returns_get :: "('s \<rightharpoonup> (nat \<rightharpoonup> real list)) \<Rightarrow> 's \<Rightarrow> nat \<Rightarrow> real list" where
  "Returns_get t s a = dd_get [] (dd_get Map.empty t s) a"

definition Q_after :: "error + ('s MonteCarloControl \<times> real \<times> real) \<Rightarrow> 's \<Rightarrow> nat \<Rightarrow> error + real" where
  "Q_after res s a = bind_err res (\<lambda>(ag, score, total). Inr (MC_Q_val ag s a))"

definition Q_after_m :: "error + ('s MonteCarloControl_m \<times> real \<times> real) \<Rightarrow> 's \<Rightarrow> nat \<Rightarrow> error + real" where
  "Q_after_m res s a = bind_err res (\<lambda>(ag, score, total). Inr (MC_Q_val_m ag s a))"

text \<open>An episode of length three, for each copy.\<close>

definition example_episode :: "nat episode" where
  "example_episode =
     \<lparr>episode.S = [10, 11, 12], episode.A = [0, 1, 2], episode.R = [5, 1, 1],
      episode.length_ep = 3, episode.final_score = 0, episode.total_reward = 7\<rparr>"

definition example_episode_m :: "(nat, bool) episode_m" where
  "example_episode_m =
     \<lparr>episode_m.steps = [(10, 0, 5, False), (11, 1, 1, False), (12, 2, 1, True)],
      episode_m.length_ep = 3, episode_m.final_score = 0, episode_m.total_reward = 7\<rparr>"

subsection \<open>The counters around a call of act\<close>

text \<open>
  \<open>counted_once\<close> relates the counters before and after a call: the visit counter of
  \<open>state\<close> and the counter of the pair \<open>(state, action)\<close> are one larger, and every
  other counter has the value it had. \<open>counts_unchanged\<close>: every counter has the value
  it had.
\<close>

definition counted_once ::
  "('s \<rightharpoonup> nat) \<Rightarrow> ('s \<rightharpoonup> (nat \<rightharpoonup> nat)) \<Rightarrow> ('s \<rightharpoonup> nat) \<Rightarrow> ('s \<rightharpoonup> (nat \<rightharpoonup> nat)) \<Rightarrow>
     's \<Rightarrow> nat \<Rightarrow> bool" where
  "counted_once sv nt sv' nt' state action =
     (\<forall>s a. dd_get 0 sv' s = dd_get 0 sv s + (if s = state then 1 else 0) \<and>
            Nsa_get nt' s a = Nsa_get nt s a + (if s = state \<and> a = action then 1 else 0))"

definition counts_unchanged ::
  "('s \<rightharpoonup> nat) \<Rightarrow> ('s \<rightharpoonup> (nat \<rightharpoonup> nat)) \<Rightarrow> ('s \<rightharpoonup> nat) \<Rightarrow> ('s \<rightharpoonup> (nat \<rightharpoonup> nat)) \<Rightarrow> bool" where
  "counts_unchanged sv nt sv' nt' =
     (\<forall>s a. dd_get 0 sv' s = dd_get 0 sv s \<and> Nsa_get nt' s a = Nsa_get nt s a)"

text \<open>
  A Q-learning agent that has visited state 5 once and still estimates zero for it, and a
  \<^verbatim>\<open>SarsaLFA\<close> agent with two actions that has visited nothing.
\<close>

definition example_zero_QLearning :: "nat QLearning" where
  "example_zero_QLearning =
     \<lparr>QLearning.gamma = 1 / 2, QLearning.available_actions = 3, QLearning.N0 = 1,
      QLearning.Q = [5 \<mapsto> [0, 0, 0]],
      QLearning.state_visits = [5 \<mapsto> 1],
      QLearning.Nsa = [5 \<mapsto> [0 \<mapsto> 1]]\<rparr>"

definition example_SarsaLFA :: "nat SarsaLFA" where
  "example_SarsaLFA =
     \<lparr>SarsaLFA.gamma = 1, SarsaLFA.available_actions = 2, SarsaLFA.N0 = 1,
      SarsaLFA.alpha = 1 / 2, SarsaLFA.lamb = 0, SarsaLFA.weights = [0, 0, 0],
      SarsaLFA.state_visits = Map.empty, SarsaLFA.feat_type = ''all''\<rparr>"

subsection \<open>A SarsaLambda agent with two traces\<close>

text \<open>
  The estimate \<^verbatim>\<open>Q[s][a]\<close> of a \<^verbatim>\<open>SarsaLambda\<close> agent, and the agent reached from
  \<^verbatim>\<open>SarsaLambda(0.5, 2, 1, 0.5)\<close> by two exploring calls of \<^verbatim>\<open>act\<close>: on state 10 with
  action 0 and on state 20 with action 1.
\<close>

definition SL_Q_val :: "'s SarsaLambda \<Rightarrow> 's \<Rightarrow> nat \<Rightarrow> real" where
  "SL_Q_val ag s a = dd_get (np_zeros (SarsaLambda.available_actions ag)) (SarsaLambda.Q ag) s ! a"

definition example_SarsaLambda :: "nat SarsaLambda" where
  "example_SarsaLambda =
     \<lparr>SarsaLambda.gamma = 1 / 2, SarsaLambda.available_actions = 2, SarsaLambda.N0 = 1,
      SarsaLambda.lambd = 1 / 2, SarsaLambda.Q = Map.empty,
      SarsaLambda.state_visits = [10 \<mapsto> 1, 20 \<mapsto> 1],
      SarsaLambda.Nsa = [10 \<mapsto> [0 \<mapsto> 1], 20 \<mapsto> [1 \<mapsto> 1]],
      SarsaLambda.E = [(10, [1, 0]), (20, [0, 1])]\<rparr>"

section \<open>Properties\<close>

subsection \<open>Auxiliary facts\<close>

lemma np_max_Max:
  assumes "xs \<noteq> []"
  shows "np_max xs = Inr (Max (set xs))"
proof (cases xs)
  case Nil
  with assms show ?thesis by simp
next
  case (Cons y ys)
  then show ?thesis using Max.set_eq_fold [of y ys] by simp
qed

lemma Q_row_length: "Q_rows_ok (QLearning.available_actions ag) (QLearning.Q ag) \<Longrightarrow> length (Q_row ag s) = QLearning.available_actions ag"
  by (auto simp: Q_rows_ok_def Q_row_def dd_get_def np_zeros_def ran_def split: option.splits)

lemma update_Q_result:
  assumes ok: "Q_rows_ok (QLearning.available_actions ag) (QLearning.Q ag)"
    and a: "action < QLearning.available_actions ag"
    and n: "0 < Nsa_get (QLearning.Nsa ag) old_state action"
  shows "QLearning_update_Q ag old_state new_state action reward =
    Inr (ag\<lparr>QLearning.Q := (dd_touch (np_zeros (QLearning.available_actions ag)) (dd_touch (np_zeros (QLearning.available_actions ag)) (QLearning.Q ag) old_state) new_state)
           (old_state \<mapsto> (Q_row ag old_state)[action := Q_row ag old_state ! action +
              (1 / real (Nsa_get (QLearning.Nsa ag) old_state action)) *
              (reward + QLearning.gamma ag * Max (set (Q_row ag new_state)) - Q_row ag old_state ! action)]),
         QLearning.Nsa := Nsa_touch (QLearning.Nsa ag) old_state action\<rparr>)"
proof -
  have l1: "length (Q_row ag old_state) = QLearning.available_actions ag"
    and l2: "length (Q_row ag new_state) = QLearning.available_actions ag"
    using ok by (simp_all add: Q_row_length)
  have ne: "Q_row ag new_state \<noteq> []" using l2 a by auto
  have g1: "dd_get d (dd_touch d t k) k' = dd_get d t k'" for d :: "'v" and t :: "'k \<rightharpoonup> 'v" and k k'
    by (simp add: dd_get_def dd_touch_def)
  have ng: "Nsa_get (Nsa_touch t s b) s b = Nsa_get t s b" for t :: "'s \<rightharpoonup> (nat \<rightharpoonup> nat)" and s b
    by (simp add: Nsa_get_def Nsa_touch_def dd_get_def dd_touch_def)
  show ?thesis
    using a n l1 l2 np_max_Max[OF ne]
    by (simp add: QLearning_update_Q_def Let_def g1 ng alpha_of_def bind_err_def np_at_def np_set_def Q_row_def [symmetric])
qed

lemma dd_get_upd: "dd_get d (t(k \<mapsto> x)) k' = (if k' = k then x else dd_get d t k')"
  by (simp add: dd_get_def)
lemma dd_get_touch: "dd_get d (dd_touch d t k) k' = dd_get d t k'"
  by (simp add: dd_get_def dd_touch_def)

lemma example_rows: "Q_rows_ok 3 (QLearning.Q (example_QLearning\<lparr>QLearning.gamma := c\<rparr>))"
  by (auto simp: Q_rows_ok_def example_QLearning_def ran_def split: if_splits)

subsection \<open>The tabular Q-learning update\<close>

text \<open>
  C6. For an agent whose stored rows have \<^verbatim>\<open>available_actions\<close> entries, an action in
  range and a pair \<open>(old_state, action)\<close> that \<^verbatim>\<open>act\<close> has counted at least once, both
  copies of \<^verbatim>\<open>update_Q\<close> succeed and replace \<^verbatim>\<open>Q[old_state][action]\<close> by
  \<^verbatim>\<open>Q[old_state][action] + alpha * (reward + gamma * max_a Q[new_state][a] - Q[old_state][action])\<close>
  with \<^verbatim>\<open>alpha = 1 / Nsa[old_state][action]\<close>; every other estimate keeps its value.
\<close>

theorem QLearning_update_Q_rule:
  assumes ok: "Q_rows_ok (QLearning.available_actions ag) (QLearning.Q ag)"
    and a: "action < QLearning.available_actions ag"
    and n: "0 < Nsa_get (QLearning.Nsa ag) old_state action"
  shows "\<exists>ag'. QLearning_update_Q ag old_state new_state action reward = Inr ag' \<and>
     QLearning_update_Q_m ag old_state new_state action reward = Inr ag' \<and>
     Q_val ag' old_state action = Q_val ag old_state action +
        (1 / real (Nsa_get (QLearning.Nsa ag) old_state action)) *
        (reward + QLearning.gamma ag * Max (set (Q_row ag new_state)) - Q_val ag old_state action) \<and>
     (\<forall>s b. (s, b) \<noteq> (old_state, action) \<longrightarrow> Q_val ag' s b = Q_val ag s b)"
proof -
  have m: "QLearning_update_Q_m ag old_state new_state action reward = QLearning_update_Q ag old_state new_state action reward"
    by (simp add: QLearning_update_Q_m_def QLearning_update_Q_def)
  have l1: "length (Q_row ag old_state) = QLearning.available_actions ag"
    using ok by (simp add: Q_row_length)
  show ?thesis
    unfolding m update_Q_result [OF ok a n]
    using a l1
    by (auto simp: Q_val_def Q_row_def dd_get_upd dd_get_touch)
qed

theorem QLearning_update_Q_rule_witness:
  "Q_rows_ok (QLearning.available_actions example_QLearning) (QLearning.Q example_QLearning) \<and>
   2 < QLearning.available_actions example_QLearning \<and>
   0 < Nsa_get (QLearning.Nsa example_QLearning) 5 2 \<and>
   (\<exists>ag'. QLearning_update_Q example_QLearning 5 7 2 1 = Inr ag' \<and>
     QLearning_update_Q_m example_QLearning 5 7 2 1 = Inr ag' \<and> Q_val ag' 5 2 = 3 / 2)"
proof -
  have h1: "Q_rows_ok (QLearning.available_actions example_QLearning) (QLearning.Q example_QLearning)"
    using example_rows [of "1 / 2"] by (simp add: example_QLearning_def)
  have h2: "2 < QLearning.available_actions example_QLearning"
    by (simp add: example_QLearning_def)
  have h3: "0 < Nsa_get (QLearning.Nsa example_QLearning) 5 2"
    by (simp add: example_QLearning_def Nsa_get_def dd_get_def)
  have v: "Nsa_get (QLearning.Nsa example_QLearning) 5 2 = 2" "Q_val example_QLearning 5 2 = 1 / 2"
     "Q_row example_QLearning 7 = [1, 3, 2]" "QLearning.gamma example_QLearning = 1 / 2"
    by (simp_all add: example_QLearning_def Nsa_get_def dd_get_def Q_val_def Q_row_def)
  have "\<exists>ag'. QLearning_update_Q example_QLearning 5 7 2 1 = Inr ag' \<and>
     QLearning_update_Q_m example_QLearning 5 7 2 1 = Inr ag' \<and> Q_val ag' 5 2 = 3 / 2"
    using QLearning_update_Q_rule [OF h1 h2 h3, of 7 1] unfolding v by fastforce
  with h1 h2 h3 show ?thesis by blast
qed

text \<open>
  C9. With reward 0, \<^verbatim>\<open>new_state == old_state\<close> and \<^verbatim>\<open>gamma == 0\<close> the update changes
  the estimate by exactly \<^verbatim>\<open>alpha * (0 - Q[old_state][action])\<close>: the estimate is unchanged
  exactly when it is 0 already, and otherwise its absolute value decreases.
\<close>

theorem QLearning_update_Q_fixed_point:
  assumes ok: "Q_rows_ok (QLearning.available_actions ag) (QLearning.Q ag)"
    and a: "action < QLearning.available_actions ag"
    and n: "0 < Nsa_get (QLearning.Nsa ag) old_state action"
    and g: "QLearning.gamma ag = 0"
  shows "\<exists>ag'. QLearning_update_Q ag old_state old_state action 0 = Inr ag' \<and>
     QLearning_update_Q_m ag old_state old_state action 0 = Inr ag' \<and>
     Q_val ag' old_state action = Q_val ag old_state action +
        (1 / real (Nsa_get (QLearning.Nsa ag) old_state action)) * (0 - Q_val ag old_state action) \<and>
     (Q_val ag' old_state action = Q_val ag old_state action \<longleftrightarrow> Q_val ag old_state action = 0) \<and>
     (Q_val ag old_state action \<noteq> 0 \<longrightarrow> \<bar>Q_val ag' old_state action\<bar> < \<bar>Q_val ag old_state action\<bar>)"
proof -
  define k where "k = Nsa_get (QLearning.Nsa ag) old_state action"
  define q where "q = Q_val ag old_state action"
  have m: "QLearning_update_Q_m ag old_state old_state action 0 = QLearning_update_Q ag old_state old_state action 0"
    by (simp add: QLearning_update_Q_m_def QLearning_update_Q_def)
  have l1: "length (Q_row ag old_state) = QLearning.available_actions ag"
    using ok by (simp add: Q_row_length)
  obtain ag' where r: "QLearning_update_Q ag old_state old_state action 0 = Inr ag'"
    and v: "Q_val ag' old_state action = q + (1 / real k) * (0 - q)"
    using a l1 g unfolding update_Q_result [OF ok a n] q_def k_def
    by (simp add: Q_val_def Q_row_def dd_get_upd dd_get_touch)
  have k1: "1 \<le> real k" using n by (simp add: k_def)
  have shrink: "\<bar>q + (1 / real k) * (0 - q)\<bar> < \<bar>q\<bar>" if q0: "q \<noteq> 0"
  proof -
    have "q + (1 / real k) * (0 - q) = q * (1 - 1 / real k)" by (simp add: algebra_simps)
    moreover have "0 \<le> 1 - 1 / real k" "1 - 1 / real k < 1" using k1 by simp_all
    ultimately show ?thesis using q0 by (simp add: abs_mult)
  qed
  have fixp: "(q + (1 / real k) * (0 - q) = q) = (q = 0)" using k1 by auto
  show ?thesis
    using r m v shrink fixp unfolding q_def k_def by auto
qed

theorem QLearning_update_Q_fixed_point_witness:
  "Q_rows_ok (QLearning.available_actions (example_QLearning\<lparr>QLearning.gamma := 0\<rparr>))
      (QLearning.Q (example_QLearning\<lparr>QLearning.gamma := 0\<rparr>)) \<and>
   2 < QLearning.available_actions (example_QLearning\<lparr>QLearning.gamma := 0\<rparr>) \<and>
   0 < Nsa_get (QLearning.Nsa (example_QLearning\<lparr>QLearning.gamma := 0\<rparr>)) 5 2 \<and>
   QLearning.gamma (example_QLearning\<lparr>QLearning.gamma := 0\<rparr>) = 0 \<and>
   (\<exists>ag'. QLearning_update_Q (example_QLearning\<lparr>QLearning.gamma := 0\<rparr>) 5 5 2 0 = Inr ag' \<and>
     Q_val ag' 5 2 = 1 / 4)"
proof -
  let ?ag = "example_QLearning\<lparr>QLearning.gamma := 0\<rparr>"
  have h1: "Q_rows_ok (QLearning.available_actions ?ag) (QLearning.Q ?ag)"
    using example_rows [of 0] by (simp add: example_QLearning_def)
  have h2: "2 < QLearning.available_actions ?ag"
    by (simp add: example_QLearning_def)
  have h3: "0 < Nsa_get (QLearning.Nsa ?ag) 5 2"
    by (simp add: example_QLearning_def Nsa_get_def dd_get_def)
  have h4: "QLearning.gamma ?ag = 0" by simp
  have v: "Nsa_get (QLearning.Nsa ?ag) 5 2 = 2" "Q_val ?ag 5 2 = 1 / 2"
    by (simp_all add: example_QLearning_def Nsa_get_def dd_get_def Q_val_def Q_row_def)
  have "\<exists>ag'. QLearning_update_Q ?ag 5 5 2 0 = Inr ag' \<and> Q_val ag' 5 2 = 1 / 4"
    using QLearning_update_Q_fixed_point [OF h1 h2 h3 h4] unfolding v by fastforce
  with h1 h2 h3 h4 show ?thesis by blast
qed

subsection \<open>The Adam step of SarsaLFAADAM\<close>

lemma powi_lt_one:
  fixes x :: real
  assumes "0 < x" "x < 1" "1 \<le> t"
  shows "x powi t < 1"
proof -
  obtain k where k: "nat t = Suc k" using assms(3) by (cases "nat t") auto
  have "x powi t = x ^ nat t" using assms(3) by (simp add: power_int_def)
  also have "\<dots> < 1" unfolding k using assms(1,2) by (rule power_Suc_less_one)
  finally show ?thesis .
qed

lemma broadcast_all:
  assumes "broadcast f x ys = Inr zs"
    and "list_all P0 (nd_list x)"
    and "\<And>c y. P0 c \<Longrightarrow> P (f c y)"
  shows "list_all P zs"
  using assms
  by (auto simp: broadcast_def nd_list_def list_all_iff split: nd.splits if_splits elim!: in_set_zipE)

lemma init_inv:
  assumes "SarsaLFAADAM_init g ss n n0 al la rand = Inr ag"
  shows "adam_inv ag \<and> SarsaLFAADAM.epsilon ag = 1 / 10000 \<and> SarsaLFAADAM.alpha ag = 1 / 1000"
  using assms by (auto simp: SarsaLFAADAM_init_def adam_inv_def nd_nonneg_def nd_list_def split: if_splits)

lemma moments_inv:
  assumes inv: "adam_inv ag" and mo: "adam_moments ag gr = Inr ag'"
  shows "adam_inv ag'"
proof -
  obtain m' v' where
    v': "broadcast (\<lambda>c x. SarsaLFAADAM.beta_2 ag * c + (1 - SarsaLFAADAM.beta_2 ag) * x\<^sup>2)
                 (SarsaLFAADAM.v ag) gr = Inr v'"
    and ag': "ag' = ag\<lparr>SarsaLFAADAM.m := Arr m', SarsaLFAADAM.v := Arr v'\<rparr>"
    using mo by (auto simp: adam_moments_def bind_err_def split: sum.splits)
  have "list_all (\<lambda>c. 0 \<le> c) v'"
  proof (rule broadcast_all [OF v'])
    show "list_all (\<lambda>c. 0 \<le> c) (nd_list (SarsaLFAADAM.v ag))"
      using inv by (simp add: adam_inv_def nd_nonneg_def)
  next
    fix c y :: real
    assume "0 \<le> c"
    then show "0 \<le> SarsaLFAADAM.beta_2 ag * c + (1 - SarsaLFAADAM.beta_2 ag) * y\<^sup>2"
      using inv by (simp add: adam_inv_def)
  qed
  then show ?thesis using inv by (simp add: ag' adam_inv_def nd_nonneg_def nd_list_def)
qed

lemma denominator_ok:
  assumes inv: "adam_inv ag" and t: "1 \<le> t"
  shows "\<exists>den. adam_denominator ag t = Inr den \<and> length den = length (nd_list (SarsaLFAADAM.v ag)) \<and>
          list_all (\<lambda>d. 1 / 10000 \<le> d) den"
proof -
  let ?d = "1 - SarsaLFAADAM.beta_2 ag powi t"
  let ?vs = "nd_list (SarsaLFAADAM.v ag)"
  have b2: "SarsaLFAADAM.beta_2 ag = 999 / 1000" and ep: "SarsaLFAADAM.epsilon ag = 1 / 10000"
    using inv unfolding adam_inv_def by blast+
  have d: "0 < ?d" unfolding b2 using powi_lt_one [of "999 / 1000" t] t by simp
  have nn: "list_all (\<lambda>c. 0 \<le> c) ?vs" using inv by (simp add: adam_inv_def nd_nonneg_def)
  have q: "np_div_scalar ?vs ?d = Inr (map (\<lambda>x. x / ?d) ?vs)"
    using d by (simp add: np_div_scalar_def)
  have nn': "\<not> list_ex (\<lambda>x. x < 0) (map (\<lambda>x. x / ?d) ?vs)"
    using nn d by (auto simp: list_ex_iff list_all_iff not_less)
  have "adam_denominator ag t = Inr (map (\<lambda>x. x + SarsaLFAADAM.epsilon ag) (map sqrt (map (\<lambda>x. x / ?d) ?vs)))"
    unfolding adam_denominator_def q using nn' by (simp add: bind_err_def np_sqrt_def)
  moreover have "list_all (\<lambda>d. 1 / 10000 \<le> d) (map (\<lambda>x. x + SarsaLFAADAM.epsilon ag) (map sqrt (map (\<lambda>x. x / ?d) ?vs)))"
    unfolding ep using nn d by (auto simp: list_all_iff)
  ultimately show ?thesis by simp
qed

lemma adam_finite:
  assumes inv: "adam_inv ag" and t: "1 \<le> t"
  shows "adam ag gr t \<noteq> Inl NonFinite"
proof (cases "adam_moments ag gr")
  case (Inl e)
  then have "e = ValueError"
    by (auto simp: adam_moments_def bind_err_def broadcast_def split: sum.splits nd.splits if_splits)
  with Inl show ?thesis by (simp add: adam_def bind_err_def)
next
  case (Inr ag')
  have inv': "adam_inv ag'" using moments_inv [OF inv Inr] .
  let ?d = "1 - SarsaLFAADAM.beta_1 ag' powi t"
  have b1: "SarsaLFAADAM.beta_1 ag' = 9 / 10"
    using inv' unfolding adam_inv_def by blast
  have d: "?d \<noteq> 0" unfolding b1 using powi_lt_one [of "9 / 10" t] t by simp
  obtain den where den: "adam_denominator ag' t = Inr den" "list_all (\<lambda>d. 1 / 10000 \<le> d) den"
    using denominator_ok [OF inv' t] by blast
  have nz: "\<not> list_ex (\<lambda>d. d = 0) den" using den(2) by (auto simp: list_ex_iff list_all_iff)
  have "np_div xs den \<noteq> Inl NonFinite" for xs
    using nz by (auto simp: np_div_def bind_err_def broadcast_def split: sum.splits if_splits)
  then show ?thesis
    using Inr den(1) d by (auto simp: adam_def bind_err_def np_div_scalar_def split: sum.splits)
qed

lemma example_init:
  "SarsaLFAADAM_init 1 1 3 1 (1 / 2) 0 (\<lambda>k. replicate k 0) = Inr example_SarsaLFAADAM"
  by (simp add: SarsaLFAADAM_init_def example_SarsaLFAADAM_def numeral_3_eq_3)

text \<open>
  C8, as the spec states it: the small number added to the denominator is \<open>1e-5\<close>.
  The constructor stores \<^verbatim>\<open>10e-5\<close>, which is \<open>1e-4\<close>.
\<close>

theorem adam_epsilon_counterexample:
  "map_sum id SarsaLFAADAM.epsilon
     (SarsaLFAADAM_init 1 1 3 1 (1 / 2) 0 (\<lambda>k. replicate k 0) :: error + nat SarsaLFAADAM)
   = Inr (1 / 10000) \<and>
   map_sum id SarsaLFAADAM.epsilon
     (SarsaLFAADAM_init 1 1 3 1 (1 / 2) 0 (\<lambda>k. replicate k 0) :: error + nat SarsaLFAADAM)
   \<noteq> Inr (1 / 100000)"
  by (simp add: SarsaLFAADAM_init_def)

text \<open>
  C8, amended. The number added is \<^verbatim>\<open>10e-5\<close>, that is \<open>1 / 10000\<close>. For every agent
  state that satisfies the invariant (the constructor establishes it and updating the
  moments preserves it) and every step count \<open>t \<ge> 1\<close>, \<^verbatim>\<open>adam\<close> never divides by zero:
  every entry of the denominator \<^verbatim>\<open>np.sqrt(v_hat) + self.epsilon\<close> is at least
  \<^verbatim>\<open>self.epsilon\<close> and positive, and the call does not produce a non-finite value.
\<close>

theorem adam_denominator_positive:
  assumes inv: "adam_inv ag" and t: "1 \<le> t"
  shows "SarsaLFAADAM.epsilon ag = 10 * (1 / 10 ^ 5) \<and>
     adam ag gr t \<noteq> Inl NonFinite \<and>
     (\<forall>ag'. adam_moments ag gr = Inr ag' \<longrightarrow>
        adam_inv ag' \<and>
        (\<exists>den. adam_denominator ag' t = Inr den \<and>
           list_all (\<lambda>d. SarsaLFAADAM.epsilon ag' \<le> d \<and> 0 < d) den)) \<and>
     (\<forall>g0 ss n n0 al la rand. \<forall>ag0 :: 's SarsaLFAADAM.
        SarsaLFAADAM_init g0 ss n n0 al la rand = Inr ag0 \<longrightarrow> adam_inv ag0)"
proof (intro conjI allI impI)
  show "SarsaLFAADAM.epsilon ag = 10 * (1 / 10 ^ 5)"
    using inv by (simp add: adam_inv_def)
  show "adam ag gr t \<noteq> Inl NonFinite"
    using adam_finite [OF inv t] .
next
  fix ag' assume mo: "adam_moments ag gr = Inr ag'"
  show "adam_inv ag'" using moments_inv [OF inv mo] .
  have ep: "SarsaLFAADAM.epsilon ag' = 1 / 10000"
    using moments_inv [OF inv mo] unfolding adam_inv_def by blast
  obtain den where "adam_denominator ag' t = Inr den" "list_all (\<lambda>d. 1 / 10000 \<le> d) den"
    using denominator_ok [OF moments_inv [OF inv mo] t] by blast
  then show "\<exists>den. adam_denominator ag' t = Inr den \<and>
           list_all (\<lambda>d. SarsaLFAADAM.epsilon ag' \<le> d \<and> 0 < d) den"
    unfolding ep by (auto simp: list_all_iff intro!: exI [of _ den])
next
  fix g0 ss n n0 al la rand and ag0 :: "'s SarsaLFAADAM"
  assume "SarsaLFAADAM_init g0 ss n n0 al la rand = Inr ag0"
  then show "adam_inv ag0" using init_inv by blast
qed

theorem adam_denominator_positive_witness:
  "adam_inv example_SarsaLFAADAM \<and> (1 :: int) \<le> 1 \<and>
   SarsaLFAADAM.epsilon example_SarsaLFAADAM = 1 / 10000 \<and>
   adam example_SarsaLFAADAM [0, 1, 2] 1 \<noteq> Inl NonFinite \<and>
   (\<exists>ag'. adam_moments example_SarsaLFAADAM [0, 1, 2] = Inr ag' \<and>
      adam_denominator ag' 1 = Inr [1 / 10000, 1 + 1 / 10000, 2 + 1 / 10000]) \<and>
   SarsaLFAADAM_init 1 1 3 1 (1 / 2) 0 (\<lambda>k. replicate k 0) = Inr example_SarsaLFAADAM"
proof -
  have h1: "adam_inv example_SarsaLFAADAM"
    by (simp add: adam_inv_def example_SarsaLFAADAM_def nd_nonneg_def nd_list_def)
  have h2: "(1 :: int) \<le> 1" by simp
  have mo: "adam_moments example_SarsaLFAADAM [0, 1, 2] =
      Inr (example_SarsaLFAADAM\<lparr>SarsaLFAADAM.m := Arr [0, 1 / 10, 2 / 10],
                                 SarsaLFAADAM.v := Arr [0, 1 / 1000, 4 / 1000]\<rparr>)"
    by (simp add: adam_moments_def example_SarsaLFAADAM_def broadcast_def bind_err_def)
  have den: "adam_denominator (example_SarsaLFAADAM\<lparr>SarsaLFAADAM.m := Arr [0, 1 / 10, 2 / 10],
                                 SarsaLFAADAM.v := Arr [0, 1 / 1000, 4 / 1000]\<rparr>) 1
      = Inr [1 / 10000, 1 + 1 / 10000, 2 + 1 / 10000]"
    by (simp add: adam_denominator_def example_SarsaLFAADAM_def nd_list_def np_div_scalar_def
          np_sqrt_def bind_err_def)
  have r1: "SarsaLFAADAM.epsilon example_SarsaLFAADAM = 10 * (1 / 10 ^ 5)"
    and r2: "adam example_SarsaLFAADAM [0, 1, 2] 1 \<noteq> Inl NonFinite"
    using adam_denominator_positive [OF h1 h2, of "[0, 1, 2]"] by blast+
  show ?thesis
    using r1 r2 h1 mo den example_init by simp
qed

text \<open>
  C10. Whenever the constructor succeeds, the stored \<^verbatim>\<open>self.alpha\<close> is 0.001 whatever
  the argument \<^verbatim>\<open>alpha\<close> was: two constructions that differ only in \<^verbatim>\<open>alpha\<close> give the
  same agent, hence the same result of \<^verbatim>\<open>adam\<close>.
\<close>

theorem SarsaLFAADAM_alpha_overwritten:
  assumes "0 \<le> 2 + state_size"
  shows "\<exists>ag. SarsaLFAADAM_init g state_size n n0 al la rand = Inr ag \<and>
      SarsaLFAADAM.alpha ag = 1 / 1000 \<and>
      (\<forall>al'. SarsaLFAADAM_init g state_size n n0 al' la rand = Inr ag) \<and>
      (\<forall>al' gr t. bind_err (SarsaLFAADAM_init g state_size n n0 al' la rand) (\<lambda>a. adam a gr t)
          = adam ag gr t)"
  using assms by (simp add: SarsaLFAADAM_init_def bind_err_def)

theorem SarsaLFAADAM_alpha_overwritten_witness:
  "(0 :: int) \<le> 2 + 1 \<and>
   SarsaLFAADAM_init 1 1 3 1 (1 / 2) 0 (\<lambda>k. replicate k 0) = Inr example_SarsaLFAADAM \<and>
   SarsaLFAADAM_init 1 1 3 1 7 0 (\<lambda>k. replicate k 0) = Inr example_SarsaLFAADAM \<and>
   SarsaLFAADAM.alpha example_SarsaLFAADAM = 1 / 1000"
proof -
  have h: "(0 :: int) \<le> 2 + 1" by simp
  obtain ag :: "nat SarsaLFAADAM" where
    a: "SarsaLFAADAM_init 1 1 3 1 (1 / 2) 0 (\<lambda>k. replicate k 0) = Inr ag"
    and b: "SarsaLFAADAM.alpha ag = 1 / 1000"
    and c: "\<forall>al'. SarsaLFAADAM_init 1 1 3 1 al' 0 (\<lambda>k. replicate k 0) = Inr ag"
    using SarsaLFAADAM_alpha_overwritten [OF h, of 1 3 1 "1 / 2" 0 "\<lambda>k. replicate k 0"] by blast
  have "ag = example_SarsaLFAADAM" using a example_init by simp
  with a b c h show ?thesis by simp
qed

subsection \<open>Monte Carlo control on an episode of length three\<close>

lemma rev_upt_2: "rev [0..<2] = [Suc 0, 0]"
  by (simp add: numeral_2_eq_2)

lemma np_argmax_ok: "xs \<noteq> [] \<Longrightarrow> \<exists>b. np_argmax xs = Inr b"
  by (cases xs) (simp_all add: np_argmax_def bind_err_def)

lemma mc_step_fresh:
  fixes ag :: "'s MonteCarloControl"
  assumes a: "a < MonteCarloControl.available_actions ag"
    and s: "np_array_at np_elem (episode.S ep) t = Inr s" and aa: "np_at (episode.A ep) t = Inr a"
    and r: "np_at (episode.R ep) (Suc t) = Inr r"
    and fresh: "Nsa_get (MonteCarloControl.Nsa ag) s a = 0"
    and len: "length (dd_get (np_zeros (MonteCarloControl.available_actions ag)) (MonteCarloControl.Q ag) s) = MonteCarloControl.available_actions ag"
  shows "\<exists>ag'. MonteCarloControl_step np_elem ep (ag, G) t = Inr (ag', MonteCarloControl.gamma ag * G + r) \<and>
     MonteCarloControl.available_actions ag' = MonteCarloControl.available_actions ag \<and>
     MonteCarloControl.gamma ag' = MonteCarloControl.gamma ag \<and>
     MC_Q_val ag' s a = MonteCarloControl.gamma ag * G + r \<and>
     (\<forall>s' a'. (s', a') \<noteq> (s, a) \<longrightarrow> MC_Q_val ag' s' a' = MC_Q_val ag s' a' \<and>
         Nsa_get (MonteCarloControl.Nsa ag') s' a' = Nsa_get (MonteCarloControl.Nsa ag) s' a') \<and>
     (\<forall>s'. length (dd_get (np_zeros (MonteCarloControl.available_actions ag')) (MonteCarloControl.Q ag') s') =
        length (dd_get (np_zeros (MonteCarloControl.available_actions ag)) (MonteCarloControl.Q ag) s'))"
proof -
  let ?n = "MonteCarloControl.available_actions ag"
  let ?row = "dd_get (np_zeros ?n) (MonteCarloControl.Q ag) s"
  let ?G = "MonteCarloControl.gamma ag * G + r"
  have n1: "Nsa_get (Nsa_incr (MonteCarloControl.Nsa ag) s a) s a = 1"
    using fresh by (simp add: Nsa_get_def Nsa_incr_def dd_get_def)
  have ne: "?row[a := ?G] \<noteq> []" using a len by auto
  obtain b where b: "np_argmax (?row[a := ?G]) = Inr b" using np_argmax_ok [OF ne] by blast
  have st: "MonteCarloControl_step np_elem ep (ag, G) t =
     Inr (ag\<lparr>MonteCarloControl.Q := (MonteCarloControl.Q ag)(s \<mapsto> ?row[a := ?G]),
                MonteCarloControl.Nsa := Nsa_incr (MonteCarloControl.Nsa ag) s a,
                MonteCarloControl.state_visits := visit_incr (MonteCarloControl.state_visits ag) s,
                MonteCarloControl.pi := ddict_set (MonteCarloControl.pi ag) s b\<rparr>, ?G)"
  proof -
    have c: "np_at ?row a = Inr (?row ! a)" "\<And>x. np_set ?row a x = Inr (?row[a := x])"
      using a len by (simp_all add: np_at_def np_set_def)
    show ?thesis
      by (simp add: MonteCarloControl_step_def Let_def s aa r n1 c b bind_err_def alpha_of_def)
  qed
  show ?thesis
    unfolding st using a len
    by (auto simp: MC_Q_val_def dd_get_def Nsa_get_def Nsa_incr_def split: option.splits)
qed

lemma mc_step_fresh_m:
  fixes ag :: "'s MonteCarloControl_m"
  assumes a: "a < MonteCarloControl_m.available_actions ag"
    and s: "np_array_at np_elem (map (\<lambda>(s, a, r, x). s) (steps ep)) t = Inr s"
    and aa: "np_at (map (\<lambda>(s, a, r, x). a) (steps ep)) t = Inr a"
    and r: "np_at (map (\<lambda>(s, a, r, x). r) (steps ep)) (Suc t) = Inr r"
    and fresh: "Returns_get (MonteCarloControl_m.Returns ag) s a = []"
    and len: "length (dd_get (np_zeros (MonteCarloControl_m.available_actions ag)) (MonteCarloControl_m.Q ag) s) = MonteCarloControl_m.available_actions ag"
  shows "\<exists>ag'. MonteCarloControl_step_m np_elem ep (ag, G) t = Inr (ag', MonteCarloControl_m.gamma ag * G + r) \<and>
     MonteCarloControl_m.available_actions ag' = MonteCarloControl_m.available_actions ag \<and>
     MonteCarloControl_m.gamma ag' = MonteCarloControl_m.gamma ag \<and>
     MC_Q_val_m ag' s a = MonteCarloControl_m.gamma ag * G + r \<and>
     (\<forall>s' a'. (s', a') \<noteq> (s, a) \<longrightarrow> MC_Q_val_m ag' s' a' = MC_Q_val_m ag s' a' \<and>
         Returns_get (MonteCarloControl_m.Returns ag') s' a' = Returns_get (MonteCarloControl_m.Returns ag) s' a') \<and>
     (\<forall>s'. length (dd_get (np_zeros (MonteCarloControl_m.available_actions ag')) (MonteCarloControl_m.Q ag') s') =
        length (dd_get (np_zeros (MonteCarloControl_m.available_actions ag)) (MonteCarloControl_m.Q ag) s'))"
proof -
  let ?n = "MonteCarloControl_m.available_actions ag"
  let ?row = "dd_get (np_zeros ?n) (MonteCarloControl_m.Q ag) s"
  let ?G = "MonteCarloControl_m.gamma ag * G + r"
  have ne: "?row[a := ?G] \<noteq> []" using a len by auto
  obtain b where b: "np_argmax (?row[a := ?G]) = Inr b" using np_argmax_ok [OF ne] by blast
  have c: "\<And>x. np_set ?row a x = Inr (?row[a := x])"
    using a len by (simp_all add: np_set_def)
  have st: "MonteCarloControl_step_m np_elem ep (ag, G) t =
     Inr (ag\<lparr>MonteCarloControl_m.Q := (MonteCarloControl_m.Q ag)(s \<mapsto> ?row[a := ?G]),
                MonteCarloControl_m.Returns := (MonteCarloControl_m.Returns ag)
                   (s \<mapsto> (dd_get Map.empty (MonteCarloControl_m.Returns ag) s)(a \<mapsto> [?G])),
                MonteCarloControl_m.pi := ddict_set (MonteCarloControl_m.pi ag) s b\<rparr>, ?G)"
    using fresh
    by (simp add: MonteCarloControl_step_m_def Let_def s aa r c b bind_err_def Returns_get_def)
  show ?thesis
    unfolding st using a len
    by (auto simp: MC_Q_val_m_def dd_get_def Returns_get_def split: option.splits)
qed

lemma update_policy_len3:
  fixes s0 s1 s2 k0 k1 :: 's
  assumes e0: "np_elem s0 = Inr k0" and e1: "np_elem s1 = Inr k1"
    and d: "(k0, a0) \<noteq> (k1, a1)" and a0: "a0 < n" and a1: "a1 < n"
  shows "\<exists>ag'. MonteCarloControl_update_policy np_elem (MonteCarloControl_init g n n0)
            \<lparr>episode.S = [s0, s1, s2], episode.A = [a0, a1, a2], episode.R = [r1, r2, r3],
             episode.length_ep = 3, episode.final_score = fs, episode.total_reward = tr\<rparr>
          = Inr (ag', fs, tr) \<and> MC_Q_val ag' k0 a0 = g * r3 + r2 \<and> MC_Q_val ag' k1 a1 = r3 \<and>
            (\<forall>s' a'. (s', a') \<noteq> (k0, a0) \<and> (s', a') \<noteq> (k1, a1) \<and> a' < n \<longrightarrow>
               MC_Q_val ag' s' a' = 0)"
proof -
  let ?ep = "\<lparr>episode.S = [s0, s1, s2], episode.A = [a0, a1, a2], episode.R = [r1, r2, r3],
             episode.length_ep = 3, episode.final_score = fs, episode.total_reward = tr\<rparr>"
  let ?ag0 = "MonteCarloControl_init g n n0 :: 's MonteCarloControl"
  have i: "MonteCarloControl.available_actions ?ag0 = n" "MonteCarloControl.gamma ?ag0 = g"
     "\<And>s a. Nsa_get (MonteCarloControl.Nsa ?ag0) s a = 0"
     "\<And>s. length (dd_get (np_zeros (MonteCarloControl.available_actions ?ag0)) (MonteCarloControl.Q ?ag0) s)
        = MonteCarloControl.available_actions ?ag0"
    by (simp_all add: MonteCarloControl_init_def Nsa_get_def dd_get_def np_zeros_def)
  have z0: "MC_Q_val ?ag0 s a = 0" if "a < n" for s a
    using that by (simp add: MC_Q_val_def MonteCarloControl_init_def dd_get_def np_zeros_def)
  have p1: "np_array_at np_elem (episode.S ?ep) 1 = Inr k1" "np_at (episode.A ?ep) 1 = Inr a1"
    "np_at (episode.R ?ep) (Suc 1) = Inr r3"
    "np_array_at np_elem (episode.S ?ep) 0 = Inr k0" "np_at (episode.A ?ep) 0 = Inr a0"
    "np_at (episode.R ?ep) (Suc 0) = Inr r2"
    by (simp_all add: np_at_def np_array_at_def bind_err_def e0 e1)
  have a1': "a1 < MonteCarloControl.available_actions ?ag0" using a1 by (simp add: i)
  obtain ag1 where 1: "MonteCarloControl_step np_elem ?ep (?ag0, 0) 1 = Inr (ag1, MonteCarloControl.gamma ?ag0 * 0 + r3)"
    and n1: "MonteCarloControl.available_actions ag1 = MonteCarloControl.available_actions ?ag0"
    and g1: "MonteCarloControl.gamma ag1 = MonteCarloControl.gamma ?ag0"
    and q1: "MC_Q_val ag1 k1 a1 = MonteCarloControl.gamma ?ag0 * 0 + r3"
    and f1: "\<forall>s' a'. (s', a') \<noteq> (k1, a1) \<longrightarrow> MC_Q_val ag1 s' a' = MC_Q_val ?ag0 s' a' \<and>
         Nsa_get (MonteCarloControl.Nsa ag1) s' a' = Nsa_get (MonteCarloControl.Nsa ?ag0) s' a'"
    and l1: "\<forall>s'. length (dd_get (np_zeros (MonteCarloControl.available_actions ag1)) (MonteCarloControl.Q ag1) s') =
        length (dd_get (np_zeros (MonteCarloControl.available_actions ?ag0)) (MonteCarloControl.Q ?ag0) s')"
    using mc_step_fresh [OF a1' p1(1) p1(2) p1(3) i(3) i(4), of 0]
    by blast
  have fr: "Nsa_get (MonteCarloControl.Nsa ag1) k0 a0 = 0" using f1 d i(3) by auto
  have a0': "a0 < MonteCarloControl.available_actions ag1" using a0 by (simp add: n1 i)
  have l1': "length (dd_get (np_zeros (MonteCarloControl.available_actions ag1)) (MonteCarloControl.Q ag1) k0)
     = MonteCarloControl.available_actions ag1"
    using l1 i(4) [of k0] by (simp add: n1)
  obtain ag2 where 2: "MonteCarloControl_step np_elem ?ep (ag1, r3) 0 = Inr (ag2, MonteCarloControl.gamma ag1 * r3 + r2)"
    and q2: "MC_Q_val ag2 k0 a0 = MonteCarloControl.gamma ag1 * r3 + r2"
    and f2: "\<forall>s' a'. (s', a') \<noteq> (k0, a0) \<longrightarrow> MC_Q_val ag2 s' a' = MC_Q_val ag1 s' a' \<and>
         Nsa_get (MonteCarloControl.Nsa ag2) s' a' = Nsa_get (MonteCarloControl.Nsa ag1) s' a'"
    using mc_step_fresh [OF a0' p1(4) p1(5) p1(6) fr l1', of r3]
    by blast
  have "MC_Q_val ag2 k1 a1 = r3" using f2 d q1 by auto
  moreover have "MonteCarloControl_update_policy np_elem ?ag0 ?ep = Inr (ag2, fs, tr)"
    using 1 2 by (simp add: MonteCarloControl_update_policy_def rev_upt_2 bind_err_def g1 i)
  moreover have "MC_Q_val ag2 s' a' = 0"
    if "(s', a') \<noteq> (k0, a0)" "(s', a') \<noteq> (k1, a1)" "a' < n" for s' a'
  proof -
    have "MC_Q_val ag2 s' a' = MC_Q_val ?ag0 s' a'" using f1 f2 that by auto
    then show ?thesis using z0 [OF that(3)] by simp
  qed
  ultimately show ?thesis using q2 by (auto simp: g1 i)
qed

lemma update_policy_len3_m:
  fixes s0 s1 s2 k0 k1 :: 's and x0 x1 x2 :: 'x
  assumes e0: "np_elem s0 = Inr k0" and e1: "np_elem s1 = Inr k1"
    and d: "(k0, a0) \<noteq> (k1, a1)" and a0: "a0 < n" and a1: "a1 < n"
  shows "\<exists>ag'. MonteCarloControl_update_policy_m np_elem (MonteCarloControl_init_m g n n0)
            \<lparr>episode_m.steps = [(s0, a0, r1, x0), (s1, a1, r2, x1), (s2, a2, r3, x2)],
             episode_m.length_ep = 3, episode_m.final_score = fs, episode_m.total_reward = tr\<rparr>
          = Inr (ag', fs, tr) \<and> MC_Q_val_m ag' k0 a0 = g * r3 + r2 \<and> MC_Q_val_m ag' k1 a1 = r3"
proof -
  let ?ep = "\<lparr>episode_m.steps = [(s0, a0, r1, x0), (s1, a1, r2, x1), (s2, a2, r3, x2)],
             episode_m.length_ep = 3, episode_m.final_score = fs, episode_m.total_reward = tr\<rparr>"
  let ?ag0 = "MonteCarloControl_init_m g n n0 :: 's MonteCarloControl_m"
  have i: "MonteCarloControl_m.available_actions ?ag0 = n" "MonteCarloControl_m.gamma ?ag0 = g"
     "\<And>s a. Returns_get (MonteCarloControl_m.Returns ?ag0) s a = []"
     "\<And>s. length (dd_get (np_zeros (MonteCarloControl_m.available_actions ?ag0)) (MonteCarloControl_m.Q ?ag0) s)
        = MonteCarloControl_m.available_actions ?ag0"
    by (simp_all add: MonteCarloControl_init_m_def Returns_get_def dd_get_def np_zeros_def)
  have p1: "np_array_at np_elem (map (\<lambda>(s, a, r, x). s) (steps ?ep)) 1 = Inr k1"
    "np_at (map (\<lambda>(s, a, r, x). a) (steps ?ep)) 1 = Inr a1"
    "np_at (map (\<lambda>(s, a, r, x). r) (steps ?ep)) (Suc 1) = Inr r3"
    "np_array_at np_elem (map (\<lambda>(s, a, r, x). s) (steps ?ep)) 0 = Inr k0"
    "np_at (map (\<lambda>(s, a, r, x). a) (steps ?ep)) 0 = Inr a0"
    "np_at (map (\<lambda>(s, a, r, x). r) (steps ?ep)) (Suc 0) = Inr r2"
    by (simp_all add: np_at_def np_array_at_def bind_err_def e0 e1)
  have a1': "a1 < MonteCarloControl_m.available_actions ?ag0" using a1 by (simp add: i)
  obtain ag1 where 1: "MonteCarloControl_step_m np_elem ?ep (?ag0, 0) 1 = Inr (ag1, MonteCarloControl_m.gamma ?ag0 * 0 + r3)"
    and n1: "MonteCarloControl_m.available_actions ag1 = MonteCarloControl_m.available_actions ?ag0"
    and g1: "MonteCarloControl_m.gamma ag1 = MonteCarloControl_m.gamma ?ag0"
    and q1: "MC_Q_val_m ag1 k1 a1 = MonteCarloControl_m.gamma ?ag0 * 0 + r3"
    and f1: "\<forall>s' a'. (s', a') \<noteq> (k1, a1) \<longrightarrow> MC_Q_val_m ag1 s' a' = MC_Q_val_m ?ag0 s' a' \<and>
         Returns_get (MonteCarloControl_m.Returns ag1) s' a' = Returns_get (MonteCarloControl_m.Returns ?ag0) s' a'"
    and l1: "\<forall>s'. length (dd_get (np_zeros (MonteCarloControl_m.available_actions ag1)) (MonteCarloControl_m.Q ag1) s') =
        length (dd_get (np_zeros (MonteCarloControl_m.available_actions ?ag0)) (MonteCarloControl_m.Q ?ag0) s')"
    using mc_step_fresh_m [OF a1' p1(1) p1(2) p1(3) i(3) i(4), of 0]
    by blast
  have fr: "Returns_get (MonteCarloControl_m.Returns ag1) k0 a0 = []" using f1 d i(3) by auto
  have a0': "a0 < MonteCarloControl_m.available_actions ag1" using a0 by (simp add: n1 i)
  have l1': "length (dd_get (np_zeros (MonteCarloControl_m.available_actions ag1)) (MonteCarloControl_m.Q ag1) k0)
     = MonteCarloControl_m.available_actions ag1"
    using l1 i(4) [of k0] by (simp add: n1)
  obtain ag2 where 2: "MonteCarloControl_step_m np_elem ?ep (ag1, r3) 0 = Inr (ag2, MonteCarloControl_m.gamma ag1 * r3 + r2)"
    and q2: "MC_Q_val_m ag2 k0 a0 = MonteCarloControl_m.gamma ag1 * r3 + r2"
    and f2: "\<forall>s' a'. (s', a') \<noteq> (k0, a0) \<longrightarrow> MC_Q_val_m ag2 s' a' = MC_Q_val_m ag1 s' a' \<and>
         Returns_get (MonteCarloControl_m.Returns ag2) s' a' = Returns_get (MonteCarloControl_m.Returns ag1) s' a'"
    using mc_step_fresh_m [OF a0' p1(4) p1(5) p1(6) fr l1', of r3]
    by blast
  have "MC_Q_val_m ag2 k1 a1 = r3" using f2 d q1 by auto
  moreover have "MonteCarloControl_update_policy_m np_elem ?ag0 ?ep = Inr (ag2, fs, tr)"
    using 1 2 by (simp add: MonteCarloControl_update_policy_m_def rev_upt_2 bind_err_def g1 i)
  ultimately show ?thesis using q2 by (auto simp: g1 i)
qed

text \<open>
  C2, as the spec states it: after one pass over an episode with rewards \<open>[r1, r2, r3]\<close>
  the estimate of the first pair is \<open>g * g * r3 + g * r2\<close>. For \<open>g = 1 / 2\<close>, the
  rewards \<open>[5, 1, 1]\<close> and the integer states 10, 11, 12 (which numpy hands back
  unchanged) that would be \<open>3 / 4\<close>; the code leaves \<open>3 / 2\<close>.
\<close>

theorem update_policy_length_three_counterexample:
  "Q_after (MonteCarloControl_update_policy Inr (MonteCarloControl_init (1 / 2) 3 1) example_episode) 10 0
     = Inr (3 / 2) \<and>
   Q_after (MonteCarloControl_update_policy Inr (MonteCarloControl_init (1 / 2) 3 1) example_episode) 10 0
     \<noteq> Inr ((1 / 2) * (1 / 2) * 1 + (1 / 2) * 1)"
proof -
  have e0: "(Inr 10 :: error + nat) = Inr 10" and e1: "(Inr 11 :: error + nat) = Inr 11" by simp_all
  have h1: "((10 :: nat), (0 :: nat)) \<noteq> (11, 1)" by simp
  have h2: "(0 :: nat) < 3" and h3: "(1 :: nat) < 3" by simp_all
  obtain ag' where u: "MonteCarloControl_update_policy Inr (MonteCarloControl_init (1 / 2) 3 1)
            \<lparr>episode.S = [10, 11, 12], episode.A = [0, 1, 2], episode.R = [5, 1, 1],
             episode.length_ep = 3, episode.final_score = 0, episode.total_reward = 7\<rparr>
          = Inr (ag', 0, 7)"
    and q: "MC_Q_val ag' (10 :: nat) 0 = 1 / 2 * 1 + 1"
    using update_policy_len3 [OF e0 e1 h1 h2 h3, of "1 / 2" 1 12 2 5 1 1 0 7] by blast
  have "Q_after (MonteCarloControl_update_policy Inr (MonteCarloControl_init (1 / 2) 3 1) example_episode) 10 0
     = Inr (3 / 2)"
    unfolding example_episode_def u using q by (simp add: Q_after_def bind_err_def)
  then show ?thesis by simp
qed

text \<open>
  C2, amended. Let \<open>k0\<close> and \<open>k1\<close> be the keys that \<^verbatim>\<open>np.array(episode.S)\<close> holds for
  the first two states of an episode of length three (the states themselves, except that a
  byte string loses its trailing NUL bytes). Starting from a newly constructed agent with
  a float discount \<open>g\<close>, if the pairs \<open>(k0, a0)\<close> and \<open>(k1, a1)\<close> differ and the two actions
  are in range, one call of \<^verbatim>\<open>update_policy\<close> succeeds in both copies and leaves
  \<^verbatim>\<open>Q[k0][a0]\<close> equal to \<open>g * r3 + r2\<close>: the return \<^verbatim>\<open>G = gamma * G + R[t + 1]\<close>
  accumulated from the end of the episode.
\<close>

theorem update_policy_length_three:
  fixes s0 s1 s2 k0 k1 :: 's and x0 x1 x2 :: 'x
  assumes e0: "np_elem s0 = Inr k0" and e1: "np_elem s1 = Inr k1"
    and d: "(k0, a0) \<noteq> (k1, a1)" and a0: "a0 < n" and a1: "a1 < n"
  shows "(\<exists>ag'. MonteCarloControl_update_policy np_elem (MonteCarloControl_init g n n0)
            \<lparr>episode.S = [s0, s1, s2], episode.A = [a0, a1, a2], episode.R = [r1, r2, r3],
             episode.length_ep = 3, episode.final_score = fs, episode.total_reward = tr\<rparr>
          = Inr (ag', fs, tr) \<and> MC_Q_val ag' k0 a0 = g * r3 + r2) \<and>
     (\<exists>ag'. MonteCarloControl_update_policy_m np_elem (MonteCarloControl_init_m g n n0)
            \<lparr>episode_m.steps = [(s0, a0, r1, x0), (s1, a1, r2, x1), (s2, a2, r3, x2)],
             episode_m.length_ep = 3, episode_m.final_score = fs, episode_m.total_reward = tr\<rparr>
          = Inr (ag', fs, tr) \<and> MC_Q_val_m ag' k0 a0 = g * r3 + r2)"
  using update_policy_len3 [OF e0 e1 d a0 a1, of g n0 s2 a2 r1 r2 r3 fs tr]
    update_policy_len3_m [OF e0 e1 d a0 a1, of g n0 r1 x0 r2 x1 s2 a2 r3 x2 fs tr]
  by blast

theorem update_policy_length_three_witness:
  "(Inr 10 :: error + nat) = Inr 10 \<and> (Inr 11 :: error + nat) = Inr 11 \<and>
   ((10 :: nat), (0 :: nat)) \<noteq> (11, 1) \<and> (0 :: nat) < 3 \<and> (1 :: nat) < 3 \<and>
   Q_after (MonteCarloControl_update_policy Inr (MonteCarloControl_init (1 / 2) 3 1) example_episode) 10 0
     = Inr (3 / 2) \<and>
   Q_after_m (MonteCarloControl_update_policy_m Inr (MonteCarloControl_init_m (1 / 2) 3 1) example_episode_m) 10 0
     = Inr (3 / 2)"
proof -
  have e0: "(Inr 10 :: error + nat) = Inr 10" and e1: "(Inr 11 :: error + nat) = Inr 11" by simp_all
  have h1: "((10 :: nat), (0 :: nat)) \<noteq> (11, 1)" by simp
  have h2: "(0 :: nat) < 3" and h3: "(1 :: nat) < 3" by simp_all
  note t = update_policy_length_three [OF e0 e1 h1 h2 h3, of "1 / 2" 1 12 2 5 1 1 0 7 False False True]
  obtain ag' where u: "MonteCarloControl_update_policy Inr (MonteCarloControl_init (1 / 2) 3 1)
            \<lparr>episode.S = [10, 11, 12], episode.A = [0, 1, 2], episode.R = [5, 1, 1],
             episode.length_ep = 3, episode.final_score = 0, episode.total_reward = 7\<rparr>
          = Inr (ag', 0, 7)"
    and q: "MC_Q_val ag' (10 :: nat) 0 = 1 / 2 * 1 + 1"
    using t [THEN conjunct1] by blast
  obtain am' where um: "MonteCarloControl_update_policy_m Inr (MonteCarloControl_init_m (1 / 2) 3 1)
            \<lparr>episode_m.steps = [(10, 0, 5, False), (11, 1, 1, False), (12, 2, 1, True)],
             episode_m.length_ep = 3, episode_m.final_score = 0, episode_m.total_reward = 7\<rparr>
          = Inr (am', 0, 7)"
    and qm: "MC_Q_val_m am' (10 :: nat) 0 = 1 / 2 * 1 + 1"
    using t [THEN conjunct2] by blast
  have r1: "Q_after (MonteCarloControl_update_policy Inr (MonteCarloControl_init (1 / 2) 3 1) example_episode) 10 0
     = Inr (3 / 2)"
    unfolding example_episode_def u using q by (simp add: Q_after_def bind_err_def)
  have r2: "Q_after_m (MonteCarloControl_update_policy_m Inr (MonteCarloControl_init_m (1 / 2) 3 1) example_episode_m) 10 0
     = Inr (3 / 2)"
    unfolding example_episode_m_def um using qm by (simp add: Q_after_m_def bind_err_def)
  show ?thesis using e0 e1 h1 h2 h3 r1 r2 by (intro conjI)
qed

text \<open>
  With byte-string states the key is not the state: for the first state \<^verbatim>\<open>b'a\x00'\<close> the
  estimate is stored under \<^verbatim>\<open>b'a'\<close>, and \<^verbatim>\<open>Q[b'a\x00'][0]\<close> stays 0.
\<close>

lemma update_policy_bytes_example:
  "Q_after (MonteCarloControl_update_policy np_bytes (MonteCarloControl_init (1 / 2) 3 1)
       \<lparr>episode.S = [[CHR ''a'', CHR 0x00], ''b'', ''c''], episode.A = [0, 1, 2],
        episode.R = [5, 1, 1], episode.length_ep = 3, episode.final_score = 0,
        episode.total_reward = 7\<rparr>) ''a'' 0 = Inr (3 / 2) \<and>
   Q_after (MonteCarloControl_update_policy np_bytes (MonteCarloControl_init (1 / 2) 3 1)
       \<lparr>episode.S = [[CHR ''a'', CHR 0x00], ''b'', ''c''], episode.A = [0, 1, 2],
        episode.R = [5, 1, 1], episode.length_ep = 3, episode.final_score = 0,
        episode.total_reward = 7\<rparr>) [CHR ''a'', CHR 0x00] 0 = Inr 0"
proof -
  have e0: "np_bytes [CHR ''a'', CHR 0x00] = Inr ''a''" and e1: "np_bytes ''b'' = Inr ''b''"
    by (simp_all add: np_bytes_def)
  have d: "(''a'', (0 :: nat)) \<noteq> (''b'', 1)" by simp
  have h2: "(0 :: nat) < 3" and h3: "(1 :: nat) < 3" by simp_all
  obtain ag' where u: "MonteCarloControl_update_policy np_bytes (MonteCarloControl_init (1 / 2) 3 1)
       \<lparr>episode.S = [[CHR ''a'', CHR 0x00], ''b'', ''c''], episode.A = [0, 1, 2],
        episode.R = [5, 1, 1], episode.length_ep = 3, episode.final_score = 0,
        episode.total_reward = 7\<rparr> = Inr (ag', 0, 7)"
    and q: "MC_Q_val ag' ''a'' 0 = 1 / 2 * 1 + 1"
    and f: "\<forall>s' a'. (s', a') \<noteq> (''a'', 0) \<and> (s', a') \<noteq> (''b'', 1) \<and> a' < 3 \<longrightarrow>
               MC_Q_val ag' s' a' = 0"
    using update_policy_len3 [OF e0 e1 d h2 h3, of "1 / 2" 1 "''c''" 2 5 1 1 0 7] by blast
  have "MC_Q_val ag' [CHR ''a'', CHR 0x00] 0 = 0" using f by simp
  then show ?thesis unfolding u using q by (simp add: Q_after_def bind_err_def)
qed

subsection \<open>What act does to the counters\<close>

lemma bind_err_Inr: "bind_err r f = Inr y \<longleftrightarrow> (\<exists>x. r = Inr x \<and> f x = Inr y)"
  by (cases r) (simp_all add: bind_err_def)

lemma visit_incr_get: "dd_get 0 (visit_incr (dd_touch 0 t k) k) k' = dd_get 0 t k' + (if k' = k then 1 else 0)"
  by (simp add: visit_incr_def dd_get_def dd_touch_def)

lemma Nsa_incr_get: "Nsa_get (Nsa_incr t s a) s' a' = Nsa_get t s' a' + (if s' = s \<and> a' = a then 1 else 0)"
  by (simp add: Nsa_get_def Nsa_incr_def dd_get_def)

lemma QLearning_act_counts:
  assumes "QLearning_act ag state coin rnd = Inr (action, ag')"
  shows "dd_get 0 (QLearning.state_visits ag') s = dd_get 0 (QLearning.state_visits ag) s + (if s = state then 1 else 0)"
    and "Nsa_get (QLearning.Nsa ag') s a = Nsa_get (QLearning.Nsa ag) s a + (if s = state \<and> a = action then 1 else 0)"
  using assms
  by (auto simp: QLearning_act_def Let_def bind_err_Inr visit_incr_get Nsa_incr_get split: if_splits)

lemma QLearning_act_m_counts:
  assumes "QLearning_act_m ag state coin rnd = Inr (action, ag')"
  shows "dd_get 0 (QLearning.state_visits ag') s = dd_get 0 (QLearning.state_visits ag) s + (if s = state then 1 else 0)"
    and "Nsa_get (QLearning.Nsa ag') s a = Nsa_get (QLearning.Nsa ag) s a + (if s = state \<and> a = action then 1 else 0)"
  using assms
  by (auto simp: QLearning_act_m_def Let_def bind_err_Inr visit_incr_get Nsa_incr_get split: if_splits)

lemma SarsaLambda_act_counts:
  assumes "SarsaLambda_act ag state coin rnd = Inr (action, ag')"
  shows "dd_get 0 (SarsaLambda.state_visits ag') s = dd_get 0 (SarsaLambda.state_visits ag) s + (if s = state then 1 else 0)"
    and "Nsa_get (SarsaLambda.Nsa ag') s a = Nsa_get (SarsaLambda.Nsa ag) s a + (if s = state \<and> a = action then 1 else 0)"
  using assms
  by (auto simp: SarsaLambda_act_def Let_def bind_err_Inr visit_incr_get Nsa_incr_get split: if_splits)

lemma QLearningLinearApprox_act_counts:
  assumes "QLearningLinearApprox_act feat ag state coin rnd = Inr (action, ag')"
  shows "dd_get 0 (QLearningLinearApprox.state_visits ag') s = dd_get 0 (QLearningLinearApprox.state_visits ag) s + (if s = state then 1 else 0)"
    and "Nsa_get (QLearningLinearApprox.Nsa ag') s a = Nsa_get (QLearningLinearApprox.Nsa ag) s a + (if s = state \<and> a = action then 1 else 0)"
  using assms
  by (auto simp: QLearningLinearApprox_act_def Let_def bind_err_Inr visit_incr_get Nsa_incr_get split: if_splits)

lemma MonteCarloControl_act_counts:
  assumes "MonteCarloControl_act ag state coin rnd = Inr (action, ag')"
  shows "dd_get 0 (MonteCarloControl.state_visits ag') s = dd_get 0 (MonteCarloControl.state_visits ag) s"
    and "Nsa_get (MonteCarloControl.Nsa ag') s a = Nsa_get (MonteCarloControl.Nsa ag) s a"
  using assms
  by (auto simp: MonteCarloControl_act_def Let_def bind_err_Inr dd_get_def dd_touch_def split: if_splits)

lemma MonteCarloControlFixedEpsilon_act_counts:
  assumes "MonteCarloControlFixedEpsilon_act ag state coin rnd = Inr (action, ag')"
  shows "dd_get 0 (MonteCarloControlFixedEpsilon.state_visits ag') s
           = dd_get 0 (MonteCarloControlFixedEpsilon.state_visits ag) s"
    and "Nsa_get (MonteCarloControlFixedEpsilon.Nsa ag') s a
           = Nsa_get (MonteCarloControlFixedEpsilon.Nsa ag) s a"
  using assms
  by (auto simp: MonteCarloControlFixedEpsilon_act_def bind_err_Inr split: if_splits)

lemma visit_incr_get': "dd_get 0 (visit_incr t k) k' = dd_get 0 t k' + (if k' = k then 1 else 0)"
  by (simp add: visit_incr_def dd_get_def)

lemma MonteCarloControl_step_counts:
  assumes "MonteCarloControl_step np_elem ep (ag, G) t = Inr (ag', G')"
  shows "\<exists>k a. np_array_at np_elem (episode.S ep) t = Inr k \<and> np_at (episode.A ep) t = Inr a \<and>
     counted_once (MonteCarloControl.state_visits ag) (MonteCarloControl.Nsa ag)
       (MonteCarloControl.state_visits ag') (MonteCarloControl.Nsa ag') k a"
  using assms
  by (auto simp: MonteCarloControl_step_def Let_def bind_err_Inr counted_once_def
        visit_incr_get' Nsa_incr_get)

lemma MonteCarloControlFixedEpsilon_step_counts:
  assumes "MonteCarloControlFixedEpsilon_step np_elem ep (ag, G) t = Inr (ag', G')"
  shows "\<exists>k a. np_array_at np_elem (episode.S ep) t = Inr k \<and> np_at (episode.A ep) t = Inr a \<and>
     counted_once (MonteCarloControlFixedEpsilon.state_visits ag) (MonteCarloControlFixedEpsilon.Nsa ag)
       (MonteCarloControlFixedEpsilon.state_visits ag') (MonteCarloControlFixedEpsilon.Nsa ag') k a"
  using assms
  by (auto simp: MonteCarloControlFixedEpsilon_step_def Let_def bind_err_Inr counted_once_def
        visit_incr_get' Nsa_incr_get)

lemma step_examples:
  "\<exists>ag'. MonteCarloControl_step Inr example_episode (MonteCarloControl_init (1 / 2) 3 1, 0) 1
          = Inr (ag', 1)"
  "\<exists>ag'. MonteCarloControlFixedEpsilon_step Inr example_episode
            (MonteCarloControlFixedEpsilon_init (1 / 2) 3 (1 / 10), 0) 1 = Inr (ag', 1)"
  by (simp_all add: MonteCarloControl_step_def MonteCarloControlFixedEpsilon_step_def
        MonteCarloControl_init_def MonteCarloControlFixedEpsilon_init_def example_episode_def
        Let_def bind_err_def np_array_at_def np_at_def np_set_def np_zeros_def np_argmax_def
        alpha_of_def Nsa_get_def Nsa_incr_def dd_get_def numeral_3_eq_3)

lemma epsilon_fresh: "n0 \<noteq> 0 \<Longrightarrow> epsilon_of n0 0 = Inr 1"
  by (simp add: epsilon_of_def)

lemma choice_p_ok: "0 \<le> e \<Longrightarrow> e \<le> 1 \<Longrightarrow> random_choice_p 2 [1 - e, e] c = Inr c"
  by (simp add: random_choice_p_def)

lemma act_examples:
  "\<exists>ag'. QLearning_act (QLearning_init (1 / 2) 3 1) (5 :: nat) 1 2 = Inr (2, ag')"
  "\<exists>ag'. QLearning_act_m (QLearning_init (1 / 2) 2 1) (5 :: nat) 1 0 = Inr (0, ag')"
  "\<exists>ag'. SarsaLambda_act (SarsaLambda_init (1 / 2) 3 1 (1 / 2)) (5 :: nat) 1 2 = Inr (2, ag')"
  "\<exists>ag'. QLearningLinearApprox_act feat (QLearningLinearApprox_init (1 / 2) (1 / 2) 2 1 4 False ''all'') (5 :: nat) 1 0 = Inr (0, ag')"
  "\<exists>ag'. MonteCarloControl_act (MonteCarloControl_init (1 / 2) 3 1) (5 :: nat) 1 2 = Inr (2, ag')"
  "\<exists>ag'. MonteCarloControlFixedEpsilon_act (MonteCarloControlFixedEpsilon_init (1 / 2) 3 (1 / 10))
           (5 :: nat) 1 2 = Inr (2, ag')"
  by (simp_all add: MonteCarloControlFixedEpsilon_act_def MonteCarloControlFixedEpsilon_init_def
       QLearning_act_def QLearning_act_m_def SarsaLambda_act_def QLearningLinearApprox_act_def
       MonteCarloControl_act_def QLearning_init_def SarsaLambda_init_def QLearningLinearApprox_init_def
       MonteCarloControl_init_def Let_def dd_get_def dd_touch_def epsilon_of_def random_choice_p_def
       random_choice_n_def bind_err_def al_get_def np_zeros_def np_at_def np_set_def numeral_3_eq_3)

text \<open>
  C5, as the spec states it, for \<^verbatim>\<open>MonteCarloControl\<close>, whose \<^verbatim>\<open>update_policy\<close> uses
  \<^verbatim>\<open>alpha = (1 / self.Nsa[S[t]][A[t]])\<close>: a call of \<^verbatim>\<open>act\<close> on a new agent returns
  action 2 and leaves the visit counter of the state and the counter of the pair at 0.
\<close>

theorem MonteCarloControl_act_counts_counterexample:
  "map_sum id (\<lambda>(a, ag'). (a, dd_get 0 (MonteCarloControl.state_visits ag') 5,
                             Nsa_get (MonteCarloControl.Nsa ag') 5 a))
     (MonteCarloControl_act (MonteCarloControl_init (1 / 2) 3 1) (5 :: nat) 1 2) = Inr (2, 0, 0)"
  by (simp add: MonteCarloControl_act_def MonteCarloControl_init_def Let_def dd_get_def dd_touch_def
        epsilon_of_def random_choice_p_def random_choice_n_def bind_err_def Nsa_get_def)

text \<open>
  C5, amended. Every call of \<^verbatim>\<open>act\<close> of \<^verbatim>\<open>QLearning\<close> (both copies),
  \<^verbatim>\<open>SarsaLambda\<close> and \<^verbatim>\<open>QLearningLinearApprox\<close> that returns an action has incremented
  the visit counter of the state and the counter \<^verbatim>\<open>Nsa\<close> of the chosen pair by exactly
  one and changed no other counter value. The \<^verbatim>\<open>act\<close> of \<^verbatim>\<open>MonteCarloControl\<close> and of
  \<^verbatim>\<open>MonteCarloControlFixedEpsilon\<close> changes no counter value: those agents count in
  \<^verbatim>\<open>update_policy\<close>, where every pass of the loop that completes has incremented the visit
  counter of \<^verbatim>\<open>S[t]\<close> and the counter \<^verbatim>\<open>Nsa\<close> of the pair \<^verbatim>\<open>(S[t], A[t])\<close> by exactly
  one and changed no other counter value.
\<close>

theorem act_counts_once:
  "(QLearning_act ag1 s1 c1 d1 = Inr (a1, ag1') \<longrightarrow>
      counted_once (QLearning.state_visits ag1) (QLearning.Nsa ag1)
        (QLearning.state_visits ag1') (QLearning.Nsa ag1') s1 a1) \<and>
   (QLearning_act_m ag2 s2 c2 d2 = Inr (a2, ag2') \<longrightarrow>
      counted_once (QLearning.state_visits ag2) (QLearning.Nsa ag2)
        (QLearning.state_visits ag2') (QLearning.Nsa ag2') s2 a2) \<and>
   (SarsaLambda_act ag3 s3 c3 d3 = Inr (a3, ag3') \<longrightarrow>
      counted_once (SarsaLambda.state_visits ag3) (SarsaLambda.Nsa ag3)
        (SarsaLambda.state_visits ag3') (SarsaLambda.Nsa ag3') s3 a3) \<and>
   (QLearningLinearApprox_act feat ag4 s4 c4 d4 = Inr (a4, ag4') \<longrightarrow>
      counted_once (QLearningLinearApprox.state_visits ag4) (QLearningLinearApprox.Nsa ag4)
        (QLearningLinearApprox.state_visits ag4') (QLearningLinearApprox.Nsa ag4') s4 a4) \<and>
   (MonteCarloControl_act ag5 s5 c5 d5 = Inr (a5, ag5') \<longrightarrow>
      counts_unchanged (MonteCarloControl.state_visits ag5) (MonteCarloControl.Nsa ag5)
        (MonteCarloControl.state_visits ag5') (MonteCarloControl.Nsa ag5')) \<and>
   (MonteCarloControlFixedEpsilon_act ag6 s6 c6 d6 = Inr (a6, ag6') \<longrightarrow>
      counts_unchanged (MonteCarloControlFixedEpsilon.state_visits ag6)
        (MonteCarloControlFixedEpsilon.Nsa ag6)
        (MonteCarloControlFixedEpsilon.state_visits ag6') (MonteCarloControlFixedEpsilon.Nsa ag6')) \<and>
   (MonteCarloControl_step np_elem ep7 (ag7, G7) t7 = Inr (ag7', G7') \<longrightarrow>
      (\<exists>k a. np_array_at np_elem (episode.S ep7) t7 = Inr k \<and> np_at (episode.A ep7) t7 = Inr a \<and>
         counted_once (MonteCarloControl.state_visits ag7) (MonteCarloControl.Nsa ag7)
           (MonteCarloControl.state_visits ag7') (MonteCarloControl.Nsa ag7') k a)) \<and>
   (MonteCarloControlFixedEpsilon_step np_elem' ep8 (ag8, G8) t8 = Inr (ag8', G8') \<longrightarrow>
      (\<exists>k a. np_array_at np_elem' (episode.S ep8) t8 = Inr k \<and> np_at (episode.A ep8) t8 = Inr a \<and>
         counted_once (MonteCarloControlFixedEpsilon.state_visits ag8)
           (MonteCarloControlFixedEpsilon.Nsa ag8)
           (MonteCarloControlFixedEpsilon.state_visits ag8')
           (MonteCarloControlFixedEpsilon.Nsa ag8') k a))"
proof (intro conjI impI)
  assume "QLearning_act ag1 s1 c1 d1 = Inr (a1, ag1')"
  then show "counted_once (QLearning.state_visits ag1) (QLearning.Nsa ag1)
        (QLearning.state_visits ag1') (QLearning.Nsa ag1') s1 a1"
    unfolding counted_once_def by (simp only: QLearning_act_counts simp_thms)
next
  assume "QLearning_act_m ag2 s2 c2 d2 = Inr (a2, ag2')"
  then show "counted_once (QLearning.state_visits ag2) (QLearning.Nsa ag2)
        (QLearning.state_visits ag2') (QLearning.Nsa ag2') s2 a2"
    unfolding counted_once_def by (simp only: QLearning_act_m_counts simp_thms)
next
  assume "SarsaLambda_act ag3 s3 c3 d3 = Inr (a3, ag3')"
  then show "counted_once (SarsaLambda.state_visits ag3) (SarsaLambda.Nsa ag3)
        (SarsaLambda.state_visits ag3') (SarsaLambda.Nsa ag3') s3 a3"
    unfolding counted_once_def by (simp only: SarsaLambda_act_counts simp_thms)
next
  assume "QLearningLinearApprox_act feat ag4 s4 c4 d4 = Inr (a4, ag4')"
  then show "counted_once (QLearningLinearApprox.state_visits ag4) (QLearningLinearApprox.Nsa ag4)
        (QLearningLinearApprox.state_visits ag4') (QLearningLinearApprox.Nsa ag4') s4 a4"
    unfolding counted_once_def by (simp only: QLearningLinearApprox_act_counts simp_thms)
next
  assume "MonteCarloControl_act ag5 s5 c5 d5 = Inr (a5, ag5')"
  then show "counts_unchanged (MonteCarloControl.state_visits ag5) (MonteCarloControl.Nsa ag5)
        (MonteCarloControl.state_visits ag5') (MonteCarloControl.Nsa ag5')"
    unfolding counts_unchanged_def by (simp only: MonteCarloControl_act_counts simp_thms)
next
  assume "MonteCarloControlFixedEpsilon_act ag6 s6 c6 d6 = Inr (a6, ag6')"
  then show "counts_unchanged (MonteCarloControlFixedEpsilon.state_visits ag6)
        (MonteCarloControlFixedEpsilon.Nsa ag6)
        (MonteCarloControlFixedEpsilon.state_visits ag6') (MonteCarloControlFixedEpsilon.Nsa ag6')"
    unfolding counts_unchanged_def
    by (simp only: MonteCarloControlFixedEpsilon_act_counts simp_thms)
next
  assume "MonteCarloControl_step np_elem ep7 (ag7, G7) t7 = Inr (ag7', G7')"
  then show "\<exists>k a. np_array_at np_elem (episode.S ep7) t7 = Inr k \<and> np_at (episode.A ep7) t7 = Inr a \<and>
         counted_once (MonteCarloControl.state_visits ag7) (MonteCarloControl.Nsa ag7)
           (MonteCarloControl.state_visits ag7') (MonteCarloControl.Nsa ag7') k a"
    by (rule MonteCarloControl_step_counts)
next
  assume "MonteCarloControlFixedEpsilon_step np_elem' ep8 (ag8, G8) t8 = Inr (ag8', G8')"
  then show "\<exists>k a. np_array_at np_elem' (episode.S ep8) t8 = Inr k \<and> np_at (episode.A ep8) t8 = Inr a \<and>
         counted_once (MonteCarloControlFixedEpsilon.state_visits ag8)
           (MonteCarloControlFixedEpsilon.Nsa ag8)
           (MonteCarloControlFixedEpsilon.state_visits ag8')
           (MonteCarloControlFixedEpsilon.Nsa ag8') k a"
    by (rule MonteCarloControlFixedEpsilon_step_counts)
qed

theorem act_counts_once_witness:
  "(\<exists>ag'. QLearning_act (QLearning_init (1 / 2) 3 1) (5 :: nat) 1 2 = Inr (2, ag') \<and>
      counted_once Map.empty Map.empty (QLearning.state_visits ag') (QLearning.Nsa ag') 5 2) \<and>
   (\<exists>ag'. QLearning_act_m (QLearning_init (1 / 2) 2 1) (5 :: nat) 1 0 = Inr (0, ag') \<and>
      counted_once Map.empty Map.empty (QLearning.state_visits ag') (QLearning.Nsa ag') 5 0) \<and>
   (\<exists>ag'. SarsaLambda_act (SarsaLambda_init (1 / 2) 3 1 (1 / 2)) (5 :: nat) 1 2 = Inr (2, ag') \<and>
      counted_once Map.empty Map.empty (SarsaLambda.state_visits ag') (SarsaLambda.Nsa ag') 5 2) \<and>
   (\<exists>ag'. QLearningLinearApprox_act (\<lambda>s a. Inr [0, 0, 0, 0, real a, 1])
            (QLearningLinearApprox_init (1 / 2) (1 / 2) 2 1 4 False ''all'') (5 :: nat) 1 0 = Inr (0, ag') \<and>
      counted_once Map.empty Map.empty (QLearningLinearApprox.state_visits ag')
        (QLearningLinearApprox.Nsa ag') 5 0) \<and>
   (\<exists>ag'. MonteCarloControl_act (MonteCarloControl_init (1 / 2) 3 1) (5 :: nat) 1 2 = Inr (2, ag') \<and>
      counts_unchanged Map.empty Map.empty (MonteCarloControl.state_visits ag')
        (MonteCarloControl.Nsa ag')) \<and>
   (\<exists>ag'. MonteCarloControlFixedEpsilon_act (MonteCarloControlFixedEpsilon_init (1 / 2) 3 (1 / 10))
            (5 :: nat) 1 2 = Inr (2, ag') \<and>
      counts_unchanged Map.empty Map.empty (MonteCarloControlFixedEpsilon.state_visits ag')
        (MonteCarloControlFixedEpsilon.Nsa ag')) \<and>
   (\<exists>ag'. MonteCarloControl_step Inr example_episode (MonteCarloControl_init (1 / 2) 3 1, 0) 1
            = Inr (ag', 1) \<and>
      counted_once Map.empty Map.empty (MonteCarloControl.state_visits ag')
        (MonteCarloControl.Nsa ag') 11 1) \<and>
   (\<exists>ag'. MonteCarloControlFixedEpsilon_step Inr example_episode
            (MonteCarloControlFixedEpsilon_init (1 / 2) 3 (1 / 10), 0) 1 = Inr (ag', 1) \<and>
      counted_once Map.empty Map.empty (MonteCarloControlFixedEpsilon.state_visits ag')
        (MonteCarloControlFixedEpsilon.Nsa ag') 11 1)"
proof -
  note t = act_counts_once [of "QLearning_init (1 / 2) 3 1" "5 :: nat" 1 2 2 _
                  "QLearning_init (1 / 2) 2 1" "5 :: nat" 1 0 0 _
                  "SarsaLambda_init (1 / 2) 3 1 (1 / 2)" "5 :: nat" 1 2 2 _
                  "\<lambda>s a. Inr [0, 0, 0, 0, real a, 1]"
                  "QLearningLinearApprox_init (1 / 2) (1 / 2) 2 1 4 False ''all''" "5 :: nat" 1 0 0 _
                  "MonteCarloControl_init (1 / 2) 3 1" "5 :: nat" 1 2 2 _
                  "MonteCarloControlFixedEpsilon_init (1 / 2) 3 (1 / 10)" "5 :: nat" 1 2 2 _
                  Inr example_episode "MonteCarloControl_init (1 / 2) 3 1" 0 1 _ 1
                  Inr example_episode "MonteCarloControlFixedEpsilon_init (1 / 2) 3 (1 / 10)" 0 1 _ 1]
  have i: "QLearning.state_visits (QLearning_init g n n0) = Map.empty"
    "QLearning.Nsa (QLearning_init g n n0) = Map.empty"
    "SarsaLambda.state_visits (SarsaLambda_init g n n0 la) = Map.empty"
    "SarsaLambda.Nsa (SarsaLambda_init g n n0 la) = Map.empty"
    "QLearningLinearApprox.state_visits (QLearningLinearApprox_init al g n n0 k b ft) = Map.empty"
    "QLearningLinearApprox.Nsa (QLearningLinearApprox_init al g n n0 k b ft) = Map.empty"
    "MonteCarloControl.state_visits (MonteCarloControl_init g n n0) = Map.empty"
    "MonteCarloControl.Nsa (MonteCarloControl_init g n n0) = Map.empty"
    "MonteCarloControlFixedEpsilon.state_visits (MonteCarloControlFixedEpsilon_init g n n0) = Map.empty"
    "MonteCarloControlFixedEpsilon.Nsa (MonteCarloControlFixedEpsilon_init g n n0) = Map.empty"
    for g n n0 la al k b ft
    by (simp_all add: MonteCarloControlFixedEpsilon_init_def QLearning_init_def SarsaLambda_init_def QLearningLinearApprox_init_def
          MonteCarloControl_init_def)
  have k: "np_array_at Inr (episode.S example_episode) 1 = Inr 11"
    "np_at (episode.A example_episode) 1 = Inr 1"
    by (simp_all add: np_array_at_def np_at_def bind_err_def example_episode_def)
  note u = t [unfolded i k]
  have c1: "\<exists>ag'. QLearning_act (QLearning_init (1 / 2) 3 1) (5 :: nat) 1 2 = Inr (2, ag') \<and>
      counted_once Map.empty Map.empty (QLearning.state_visits ag') (QLearning.Nsa ag') 5 2"
    using u [THEN conjunct1] act_examples(1) by blast
  have c2: "\<exists>ag'. QLearning_act_m (QLearning_init (1 / 2) 2 1) (5 :: nat) 1 0 = Inr (0, ag') \<and>
      counted_once Map.empty Map.empty (QLearning.state_visits ag') (QLearning.Nsa ag') 5 0"
    using u [THEN conjunct2, THEN conjunct1] act_examples(2) by blast
  have c3: "\<exists>ag'. SarsaLambda_act (SarsaLambda_init (1 / 2) 3 1 (1 / 2)) (5 :: nat) 1 2 = Inr (2, ag') \<and>
      counted_once Map.empty Map.empty (SarsaLambda.state_visits ag') (SarsaLambda.Nsa ag') 5 2"
    using u [THEN conjunct2, THEN conjunct2, THEN conjunct1] act_examples(3) by blast
  have c4: "\<exists>ag'. QLearningLinearApprox_act (\<lambda>s a. Inr [0, 0, 0, 0, real a, 1])
            (QLearningLinearApprox_init (1 / 2) (1 / 2) 2 1 4 False ''all'') (5 :: nat) 1 0 = Inr (0, ag') \<and>
      counted_once Map.empty Map.empty (QLearningLinearApprox.state_visits ag')
        (QLearningLinearApprox.Nsa ag') 5 0"
    using u [THEN conjunct2, THEN conjunct2, THEN conjunct2, THEN conjunct1] act_examples(4)
    by blast
  have c5: "\<exists>ag'. MonteCarloControl_act (MonteCarloControl_init (1 / 2) 3 1) (5 :: nat) 1 2 = Inr (2, ag') \<and>
      counts_unchanged Map.empty Map.empty (MonteCarloControl.state_visits ag')
        (MonteCarloControl.Nsa ag')"
    using u [THEN conjunct2, THEN conjunct2, THEN conjunct2, THEN conjunct2, THEN conjunct1]
      act_examples(5) by blast
  have c6: "\<exists>ag'. MonteCarloControlFixedEpsilon_act (MonteCarloControlFixedEpsilon_init (1 / 2) 3 (1 / 10))
            (5 :: nat) 1 2 = Inr (2, ag') \<and>
      counts_unchanged Map.empty Map.empty (MonteCarloControlFixedEpsilon.state_visits ag')
        (MonteCarloControlFixedEpsilon.Nsa ag')"
    using u [THEN conjunct2, THEN conjunct2, THEN conjunct2, THEN conjunct2, THEN conjunct2,
             THEN conjunct1] act_examples(6) by blast
  have c7: "\<exists>ag'. MonteCarloControl_step Inr example_episode (MonteCarloControl_init (1 / 2) 3 1, 0) 1
            = Inr (ag', 1) \<and>
      counted_once Map.empty Map.empty (MonteCarloControl.state_visits ag')
        (MonteCarloControl.Nsa ag') 11 1"
    using u [THEN conjunct2, THEN conjunct2, THEN conjunct2, THEN conjunct2, THEN conjunct2,
             THEN conjunct2, THEN conjunct1] step_examples(1) by blast
  have c8: "\<exists>ag'. MonteCarloControlFixedEpsilon_step Inr example_episode
            (MonteCarloControlFixedEpsilon_init (1 / 2) 3 (1 / 10), 0) 1 = Inr (ag', 1) \<and>
      counted_once Map.empty Map.empty (MonteCarloControlFixedEpsilon.state_visits ag')
        (MonteCarloControlFixedEpsilon.Nsa ag') 11 1"
    using u [THEN conjunct2, THEN conjunct2, THEN conjunct2, THEN conjunct2, THEN conjunct2,
             THEN conjunct2, THEN conjunct2] step_examples(2) by blast
  show ?thesis
    using c1 c2 c3 c4 c5 c6 c7 c8 by (intro conjI)
qed

subsection \<open>The forward bias and the first visit of a state\<close>

lemma epsilon_pos:
  assumes "0 < n0"
  shows "\<exists>e. epsilon_of n0 k = Inr e \<and> 0 < e \<and> e \<le> 1"
proof -
  have "0 < n0 + real k" using assms by (simp add: add_pos_nonneg)
  then show ?thesis using assms by (simp add: epsilon_of_def)
qed

lemma zero_row_max:
  assumes "xs \<noteq> []" and "\<forall>x \<in> set xs. x = 0"
  shows "np_max xs = Inr 0" and "np_min xs = Inr 0" and "np_argmax xs = Inr 0"
proof -
  obtain y ys where xs: "xs = y # ys" using assms(1) by (cases xs) auto
  have y: "y = 0" and ys: "\<forall>x \<in> set ys. x = 0" using assms(2) xs by auto
  have f: "fold max ys 0 = 0" "fold min ys (0 :: real) = 0" using ys by (induction ys) auto
  show "np_max xs = Inr 0" "np_min xs = Inr 0" using f by (simp_all add: xs y)
  then show "np_argmax xs = Inr 0" by (simp add: np_argmax_def bind_err_def xs y)
qed

lemma greedy_or_bias_zero:
  assumes "dd_get (np_zeros n) qt state \<noteq> []" and "\<forall>x \<in> set (dd_get (np_zeros n) qt state). x = 0"
  shows "greedy_or_bias n qt state = Inr (1, dd_touch (np_zeros n) qt state)"
  using zero_row_max [OF assms] by (simp add: greedy_or_bias_def Let_def bind_err_def)

lemma example_zero_facts:
  "0 < QLearning.N0 example_zero_QLearning"
  "Q_row example_zero_QLearning 5 = [0, 0, 0]"
  by (simp_all add: example_zero_QLearning_def Q_row_def dd_get_def)

lemma MonteCarloControl_step_pi:
  assumes "MonteCarloControl_step np_elem ep st t = Inr st'"
    and "np_array_at np_elem (episode.S ep) t \<noteq> Inr s"
  shows "ddict_get (MonteCarloControl.pi (fst st')) s = ddict_get (MonteCarloControl.pi (fst st)) s"
  using assms
  by (auto simp: MonteCarloControl_step_def Let_def bind_err_Inr ddict_get_def ddict_set_def dd_get_def
        split: option.splits)

lemma MonteCarloControl_loop_pi:
  assumes "MonteCarloControl_loop np_elem ep st ts = Inr st'"
    and "\<forall>t \<in> set ts. np_array_at np_elem (episode.S ep) t \<noteq> Inr s"
  shows "ddict_get (MonteCarloControl.pi (fst st')) s = ddict_get (MonteCarloControl.pi (fst st)) s"
  using assms
proof (induction ts arbitrary: st)
  case Nil
  then show ?case by simp
next
  case (Cons t ts)
  from Cons.prems(1) obtain st1 where 1: "MonteCarloControl_step np_elem ep st t = Inr st1"
    and 2: "MonteCarloControl_loop np_elem ep st1 ts = Inr st'"
    by (auto simp: bind_err_Inr)
  have "ddict_get (MonteCarloControl.pi (fst st1)) s = ddict_get (MonteCarloControl.pi (fst st)) s"
    using MonteCarloControl_step_pi [OF 1] Cons.prems(2) by simp
  moreover have "ddict_get (MonteCarloControl.pi (fst st')) s = ddict_get (MonteCarloControl.pi (fst st1)) s"
    using Cons.IH [OF 2] Cons.prems(2) by simp
  ultimately show ?case by simp
qed

lemma update_policy_pi:
  assumes "MonteCarloControl_update_policy np_elem (MonteCarloControl_init g n k) ep = Inr (mc, fs, tr)"
    and "\<forall>t < episode.length_ep ep - 1. np_array_at np_elem (episode.S ep) t \<noteq> Inr s"
  shows "ddict_get (MonteCarloControl.pi mc) s = 1"
proof -
  from assms(1) obtain st' where
    l: "MonteCarloControl_loop np_elem ep (MonteCarloControl_init g n k, 0)
          (rev [0..<episode.length_ep ep - 1]) = Inr st'"
    and m: "mc = fst st'"
    by (auto simp: MonteCarloControl_update_policy_def bind_err_Inr)
  have "\<forall>t \<in> set (rev [0..<episode.length_ep ep - 1]). np_array_at np_elem (episode.S ep) t \<noteq> Inr s"
    using assms(2) by simp
  from MonteCarloControl_loop_pi [OF l this] show ?thesis
    by (simp add: m MonteCarloControl_init_def ddict_get_def ddict_new_def dd_get_def)
qed

text \<open>
  C3, as the spec states it: the bias action is 2. The policy table that the constructor
  makes answers 1 for every state, the greedy branch of \<^verbatim>\<open>act\<close> returns that 1 for a
  state without an entry, and \<^verbatim>\<open>QLearning.act\<close> on a state with all-zero estimates
  returns 1 when the draw is to exploit.
\<close>

theorem forward_bias_counterexample:
  "ddict_get (MonteCarloControl.pi (MonteCarloControl_init (1 / 2) 3 1)) (5 :: nat) \<noteq> 2 \<and>
   map_sum id fst
     (MonteCarloControlFixedEpsilon_act (MonteCarloControlFixedEpsilon_init (1 / 2) 3 (1 / 10))
        (5 :: nat) 0 2) = Inr 1 \<and>
   map_sum id fst
     (MonteCarloControlFixedEpsilon_act (MonteCarloControlFixedEpsilon_init (1 / 2) 3 (1 / 10))
        (5 :: nat) 0 2) \<noteq> Inr 2 \<and>
   map_sum id fst (QLearning_act example_zero_QLearning 5 0 2) = Inr 1 \<and>
   map_sum id fst (QLearning_act example_zero_QLearning 5 0 2) \<noteq> Inr 2"
proof -
  have "map_sum id fst (QLearning_act example_zero_QLearning 5 0 2) = Inr 1"
    by (simp add: QLearning_act_def example_zero_QLearning_def Let_def dd_get_def dd_touch_def
          epsilon_of_def random_choice_p_def bind_err_def greedy_or_bias_def np_argmax_def)
  moreover have "map_sum id fst
     (MonteCarloControlFixedEpsilon_act (MonteCarloControlFixedEpsilon_init (1 / 2) 3 (1 / 10))
        (5 :: nat) 0 2) = Inr 1"
    by (simp add: MonteCarloControlFixedEpsilon_act_def MonteCarloControlFixedEpsilon_init_def
          random_choice_p_def bind_err_def ddict_get_def ddict_new_def dd_get_def)
  ultimately show ?thesis
    by (simp add: MonteCarloControl_init_def ddict_get_def ddict_new_def dd_get_def)
qed

text \<open>
  C3, amended. Before any evidence exists for a state (in a newly constructed Monte Carlo
  agent, and still after an \<^verbatim>\<open>update_policy\<close> that did not process the state) the policy
  table maps it to the forward-bias action 1, and the greedy branch of \<^verbatim>\<open>act\<close> returns
  that action; and when all estimates of a state are zero and the draw is to exploit,
  \<^verbatim>\<open>QLearning.act\<close> returns the same action 1, where \<^verbatim>\<open>argmax\<close> would give 0.
\<close>

theorem forward_bias_action_one:
  assumes n0: "0 < QLearning.N0 ag"
    and ne: "Q_row ag state \<noteq> []"
    and z: "\<forall>x \<in> set (Q_row ag state). x = 0"
    and e0: "0 \<le> e" and e1: "e \<le> 1" and k0: "k \<noteq> 0"
  shows "ddict_get (MonteCarloControl.pi (MonteCarloControl_init g n k)) s = 1 \<and>
     ddict_get (MonteCarloControlFixedEpsilon.pi (MonteCarloControlFixedEpsilon_init g n e)) s = 1 \<and>
     (MonteCarloControl_update_policy np_elem (MonteCarloControl_init g n k) ep = Inr (mc, fs, tr) \<and>
      (\<forall>t < episode.length_ep ep - 1. np_array_at np_elem (episode.S ep) t \<noteq> Inr s) \<longrightarrow>
        ddict_get (MonteCarloControl.pi mc) s = 1) \<and>
     (\<exists>mc'. MonteCarloControl_act (MonteCarloControl_init g n k) s 0 rnd = Inr (1, mc')) \<and>
     (\<exists>mc'. MonteCarloControlFixedEpsilon_act (MonteCarloControlFixedEpsilon_init g n e) s 0 rnd
              = Inr (1, mc')) \<and>
     (\<exists>ag'. QLearning_act ag state 0 rnd = Inr (1, ag')) \<and>
     np_argmax (Q_row ag state) = Inr 0"
proof -
  obtain e' where e: "epsilon_of (QLearning.N0 ag) (dd_get 0 (QLearning.state_visits ag) state) = Inr e'"
    "0 < e'" "e' \<le> 1"
    using epsilon_pos [OF n0] by blast
  have p: "random_choice_p 2 [1 - e', e'] 0 = Inr 0" using e by (simp add: random_choice_p_def)
  have q: "\<exists>ag'. QLearning_act ag state 0 rnd = Inr (1, ag')"
    using greedy_or_bias_zero [OF ne [unfolded Q_row_def] z [unfolded Q_row_def]] e(1) p
    by (simp add: QLearning_act_def Let_def bind_err_def dd_get_def dd_touch_def)
  have t: "ddict_get (MonteCarloControl.pi (MonteCarloControl_init g n k)) s = 1"
    "ddict_get (MonteCarloControlFixedEpsilon.pi (MonteCarloControlFixedEpsilon_init g n e)) s = 1"
    by (simp_all add: MonteCarloControl_init_def MonteCarloControlFixedEpsilon_init_def
          ddict_get_def ddict_new_def dd_get_def)
  have m1: "\<exists>mc'. MonteCarloControl_act (MonteCarloControl_init g n k) s 0 rnd = Inr (1, mc')"
    using k0 t(1)
    by (simp add: MonteCarloControl_act_def Let_def bind_err_def epsilon_of_def random_choice_p_def
          dd_get_def dd_touch_def MonteCarloControl_init_def)
  have m2: "\<exists>mc'. MonteCarloControlFixedEpsilon_act (MonteCarloControlFixedEpsilon_init g n e) s 0 rnd
              = Inr (1, mc')"
    using e0 e1 t(2)
    by (simp add: MonteCarloControlFixedEpsilon_act_def bind_err_def random_choice_p_def
          MonteCarloControlFixedEpsilon_init_def)
  have u: "MonteCarloControl_update_policy np_elem (MonteCarloControl_init g n k) ep = Inr (mc, fs, tr) \<and>
      (\<forall>t < episode.length_ep ep - 1. np_array_at np_elem (episode.S ep) t \<noteq> Inr s) \<longrightarrow>
        ddict_get (MonteCarloControl.pi mc) s = 1"
  proof (intro impI, elim conjE)
    assume "MonteCarloControl_update_policy np_elem (MonteCarloControl_init g n k) ep = Inr (mc, fs, tr)"
      and "\<forall>t < episode.length_ep ep - 1. np_array_at np_elem (episode.S ep) t \<noteq> Inr s"
    then show "ddict_get (MonteCarloControl.pi mc) s = 1" by (rule update_policy_pi)
  qed
  show ?thesis
    using q t m1 m2 u zero_row_max(3) [OF ne z] by (intro conjI)
qed

theorem forward_bias_action_one_witness:
  "0 < QLearning.N0 example_zero_QLearning \<and>
   Q_row example_zero_QLearning 5 = [0, 0, 0] \<and>
   (0 :: real) \<le> 1 / 10 \<and> (1 / 10 :: real) \<le> 1 \<and> (1 :: real) \<noteq> 0 \<and>
   draw_possible [1 - 1 / 10, 1 / 10] 0 \<and>
   ddict_get (MonteCarloControl.pi (MonteCarloControl_init (1 / 2) 3 1)) (5 :: nat) = 1 \<and>
   (\<exists>mc. MonteCarloControl_update_policy Inr (MonteCarloControl_init (1 / 2) 3 1) example_episode
            = Inr (mc, 0, 7) \<and> ddict_get (MonteCarloControl.pi mc) 5 = 1) \<and>
   (\<exists>mc'. MonteCarloControlFixedEpsilon_act (MonteCarloControlFixedEpsilon_init (1 / 2) 3 (1 / 10))
            (5 :: nat) 0 2 = Inr (1, mc')) \<and>
   (\<exists>ag'. QLearning_act example_zero_QLearning 5 0 2 = Inr (1, ag'))"
proof -
  have h1: "0 < QLearning.N0 example_zero_QLearning"
    and h2: "Q_row example_zero_QLearning 5 \<noteq> []"
    and h3: "\<forall>x \<in> set (Q_row example_zero_QLearning 5). x = 0"
    by (simp_all add: example_zero_facts)
  have h4: "(0 :: real) \<le> 1 / 10" and h5: "(1 / 10 :: real) \<le> 1" and h6: "(1 :: real) \<noteq> 0"
    by simp_all
  have dp: "draw_possible [1 - 1 / 10, 1 / 10] 0" by (simp add: draw_possible_def)
  have e0: "(Inr 10 :: error + nat) = Inr 10" and e1: "(Inr 11 :: error + nat) = Inr 11" by simp_all
  have d: "((10 :: nat), (0 :: nat)) \<noteq> (11, 1)" and b0: "(0 :: nat) < 3" and b1: "(1 :: nat) < 3"
    by simp_all
  obtain mc where u: "MonteCarloControl_update_policy Inr (MonteCarloControl_init (1 / 2) 3 1)
            example_episode = Inr (mc, 0, 7)"
    using update_policy_len3 [OF e0 e1 d b0 b1, of "1 / 2" 1 12 2 5 1 1 0 7]
    unfolding example_episode_def by blast
  have nk: "\<forall>t < episode.length_ep example_episode - 1.
              np_array_at Inr (episode.S example_episode) t \<noteq> Inr 5"
    by (auto simp: example_episode_def np_array_at_def np_at_def bind_err_def less_Suc_eq
          numeral_2_eq_2)
  note t = forward_bias_action_one [OF h1 h2 h3 h4 h5 h6,
      of "1 / 2" 3 "5 :: nat" Inr example_episode mc 0 7 2]
  have p: "ddict_get (MonteCarloControl.pi mc) 5 = 1"
    using t [THEN conjunct2, THEN conjunct2, THEN conjunct1] u nk by blast
  have r1: "ddict_get (MonteCarloControl.pi (MonteCarloControl_init (1 / 2) 3 1)) (5 :: nat) = 1"
    using t [THEN conjunct1] .
  have r2: "\<exists>mc'. MonteCarloControlFixedEpsilon_act (MonteCarloControlFixedEpsilon_init (1 / 2) 3 (1 / 10))
            (5 :: nat) 0 2 = Inr (1, mc')"
    using t [THEN conjunct2, THEN conjunct2, THEN conjunct2, THEN conjunct2, THEN conjunct1] .
  have r3: "\<exists>ag'. QLearning_act example_zero_QLearning 5 0 2 = Inr (1, ag')"
    using t [THEN conjunct2, THEN conjunct2, THEN conjunct2, THEN conjunct2, THEN conjunct2,
             THEN conjunct1] .
  have r4: "\<exists>mc. MonteCarloControl_update_policy Inr (MonteCarloControl_init (1 / 2) 3 1) example_episode
            = Inr (mc, 0, 7) \<and> ddict_get (MonteCarloControl.pi mc) 5 = 1"
    using u p by blast
  show ?thesis
    using h1 example_zero_facts(2) h4 h5 h6 dp r1 r4 r2 r3 by (intro conjI)
qed

text \<open>
  C4, as the spec states it: on a never-visited state with default estimates \<^verbatim>\<open>act\<close>
  returns the bias action with no randomness. On such a state of a new agent the
  exploration probability is 1, the only possible draw is to explore, and the action
  returned is the uniform draw: 0 for one draw, 2 for another.
\<close>

theorem act_unvisited_counterexample:
  "dd_get 0 (QLearning.state_visits (QLearning_init (1 / 2) 3 1)) (5 :: nat) = 0 \<and>
   Q_row (QLearning_init (1 / 2) 3 1) (5 :: nat) = [0, 0, 0] \<and>
   epsilon_of 1 0 = Inr 1 \<and> draw_possible [1 - 1, 1] 1 \<and> \<not> draw_possible [1 - 1, 1] 0 \<and>
   map_sum id fst (QLearning_act (QLearning_init (1 / 2) 3 1) (5 :: nat) 1 0) = Inr 0 \<and>
   map_sum id fst (QLearning_act (QLearning_init (1 / 2) 3 1) (5 :: nat) 1 2) = Inr 2"
  by (simp add: QLearning_act_def QLearning_init_def Let_def dd_get_def dd_touch_def Q_row_def
        np_zeros_def numeral_3_eq_3 draw_possible_def
        epsilon_of_def random_choice_p_def random_choice_n_def bind_err_def)

text \<open>
  C4, amended. On a state whose visit counter is zero and whose estimates are the initial
  zeros, with \<^verbatim>\<open>N0\<close> not zero, \<^verbatim>\<open>act\<close> returns the forward-bias action 1 whenever the
  draw is to exploit, whatever the uniform draw. But the exploration probability is 1
  there: the draw to exploit has probability zero, and on the draw to explore
  \<^verbatim>\<open>QLearning.act\<close> as well as \<^verbatim>\<open>SarsaLFA.act\<close> (with two actions) return the uniformly
  drawn action.
\<close>

theorem act_unvisited_state_explores:
  assumes nv: "dd_get 0 (QLearning.state_visits ag) state = 0"
    and dflt: "Q_row ag state = np_zeros (QLearning.available_actions ag)"
    and n0: "QLearning.N0 ag \<noteq> 0"
    and r: "rnd < QLearning.available_actions ag"
    and nv2: "dd_get 0 (SarsaLFA.state_visits ag2) state2 = 0"
    and n02: "SarsaLFA.N0 ag2 \<noteq> 0"
    and k2: "SarsaLFA.available_actions ag2 = 2"
  shows "epsilon_of (QLearning.N0 ag) (dd_get 0 (QLearning.state_visits ag) state) = Inr 1 \<and>
     epsilon_of (SarsaLFA.N0 ag2) (dd_get 0 (SarsaLFA.state_visits ag2) state2) = Inr 1 \<and>
     \<not> draw_possible [1 - 1, 1] 0 \<and> draw_possible [1 - 1, 1] 1 \<and>
     (\<exists>ag'. QLearning_act ag state 1 rnd = Inr (rnd, ag')) \<and>
     (\<exists>ag'. SarsaLFA_act feat ag2 state2 1 rnd2 = Inr (rnd2, ag')) \<and>
     (\<exists>ag'. QLearning_act ag state 0 rnd = Inr (1, ag')) \<and>
     (\<exists>ag'. SarsaLFA_act feat ag2 state2 0 rnd2 = Inr (1, ag'))"
proof -
  have e1: "epsilon_of (QLearning.N0 ag) (dd_get 0 (QLearning.state_visits ag) state) = Inr 1"
    using nv n0 by (simp add: epsilon_of_def)
  have e2: "epsilon_of (SarsaLFA.N0 ag2) (dd_get 0 (SarsaLFA.state_visits ag2) state2) = Inr 1"
    using nv2 n02 by (simp add: epsilon_of_def)
  have a1: "\<exists>ag'. QLearning_act ag state 1 rnd = Inr (rnd, ag')"
    using e1 r
    by (simp add: QLearning_act_def Let_def bind_err_def dd_get_def dd_touch_def
          random_choice_p_def random_choice_n_def)
  have a2: "\<exists>ag'. SarsaLFA_act feat ag2 state2 1 rnd2 = Inr (rnd2, ag')"
    using e2 k2
    by (simp add: SarsaLFA_act_def Let_def bind_err_def dd_get_def dd_touch_def
          random_choice_p_def random_choice_n_def)
  have ne: "dd_get (np_zeros (QLearning.available_actions ag)) (QLearning.Q ag) state \<noteq> []"
    and z: "\<forall>x \<in> set (dd_get (np_zeros (QLearning.available_actions ag)) (QLearning.Q ag) state). x = 0"
    using dflt r unfolding Q_row_def by (auto simp: np_zeros_def)
  have b1: "\<exists>ag'. QLearning_act ag state 0 rnd = Inr (1, ag')"
    using greedy_or_bias_zero [OF ne z] e1
    by (simp add: QLearning_act_def Let_def bind_err_def dd_get_def dd_touch_def random_choice_p_def)
  have b2: "\<exists>ag'. SarsaLFA_act feat ag2 state2 0 rnd2 = Inr (1, ag')"
    using e2 nv2 k2
    by (simp add: SarsaLFA_act_def Let_def bind_err_def dd_get_def dd_touch_def random_choice_p_def)
  show ?thesis using e1 e2 a1 a2 b1 b2 by (simp add: draw_possible_def)
qed

theorem act_unvisited_state_explores_witness:
  "dd_get 0 (QLearning.state_visits (QLearning_init (1 / 2) 3 1)) (5 :: nat) = 0 \<and>
   Q_row (QLearning_init (1 / 2) 3 1) (5 :: nat) = np_zeros 3 \<and>
   QLearning.N0 (QLearning_init (1 / 2) 3 1 :: nat QLearning) \<noteq> 0 \<and>
   2 < QLearning.available_actions (QLearning_init (1 / 2) 3 1 :: nat QLearning) \<and>
   dd_get 0 (SarsaLFA.state_visits example_SarsaLFA) 5 = 0 \<and>
   SarsaLFA.N0 example_SarsaLFA \<noteq> 0 \<and>
   SarsaLFA.available_actions example_SarsaLFA = 2 \<and>
   (\<exists>ag'. QLearning_act (QLearning_init (1 / 2) 3 1) (5 :: nat) 1 2 = Inr (2, ag')) \<and>
   (\<exists>ag'. SarsaLFA_act (\<lambda>s a. Inr [0, real a, 1]) example_SarsaLFA 5 1 0 = Inr (0, ag'))"
proof -
  have h1: "dd_get 0 (QLearning.state_visits (QLearning_init (1 / 2) 3 1)) (5 :: nat) = 0"
    and h2: "QLearning.N0 (QLearning_init (1 / 2) 3 1 :: nat QLearning) \<noteq> 0"
    and h3: "2 < QLearning.available_actions (QLearning_init (1 / 2) 3 1 :: nat QLearning)"
    and h0: "Q_row (QLearning_init (1 / 2) 3 1) (5 :: nat)
               = np_zeros (QLearning.available_actions (QLearning_init (1 / 2) 3 1 :: nat QLearning))"
    by (simp_all add: QLearning_init_def dd_get_def Q_row_def)
  have h4: "dd_get 0 (SarsaLFA.state_visits example_SarsaLFA) 5 = 0"
    and h5: "SarsaLFA.N0 example_SarsaLFA \<noteq> 0"
    and h6: "SarsaLFA.available_actions example_SarsaLFA = 2"
    by (simp_all add: example_SarsaLFA_def dd_get_def)
  have h0': "Q_row (QLearning_init (1 / 2) 3 1) (5 :: nat) = np_zeros 3"
    using h0 by (simp add: QLearning_init_def)
  show ?thesis
    using act_unvisited_state_explores [OF h1 h0 h2 h3 h4 h5 h6, of "\<lambda>s a. Inr [0, real a, 1]" 0]
      h1 h0' h2 h3 h4 h5 h6 by blast
qed

text \<open>
  C7 holds that \<^verbatim>\<open>act\<close> completes when the explore-or-exploit draw is taken from
  \<^verbatim>\<open>np.arange(self.available_actions)\<close> and there are more than two actions. With three
  actions, \<^verbatim>\<open>np.random.choice\<close> rejects the two probabilities for a population of three and
  the call raises \<^verbatim>\<open>ValueError\<close>, in each of the three agents and for every draw.
\<close>

theorem act_arange_raises_ValueError:
  "QLearning_act_m (QLearning_init (1 / 2) 3 1) (5 :: nat) coin rnd = Inl ValueError \<and>
   QLearningLinearApprox_act feat (QLearningLinearApprox_init (1 / 2) (1 / 2) 3 1 4 False ''all'')
     (5 :: nat) coin rnd = Inl ValueError \<and>
   SarsaLFAADAM_act feat' example_SarsaLFAADAM 5 coin rnd = Inl ValueError"
  by (simp add: QLearning_act_m_def QLearningLinearApprox_act_def SarsaLFAADAM_act_def
        QLearning_init_def QLearningLinearApprox_init_def example_SarsaLFAADAM_def
        Let_def dd_get_def dd_touch_def epsilon_of_def random_choice_p_def bind_err_def)

subsection \<open>The SarsaLambda update\<close>

lemma upt2: "[0..<2] = [0, Suc 0]"
  by (simp add: numeral_2_eq_2)

lemma example_SarsaLambda_reached:
  "bind_err (SarsaLambda_act (SarsaLambda_init (1 / 2) 2 1 (1 / 2)) 10 1 0)
     (\<lambda>(a, ag). SarsaLambda_act ag 20 1 1) = Inr (1, example_SarsaLambda)"
  by (simp add: SarsaLambda_act_def SarsaLambda_init_def example_SarsaLambda_def Let_def
        dd_get_def dd_touch_def epsilon_of_def random_choice_p_def random_choice_n_def bind_err_def
        al_get_def np_zeros_def np_at_def np_set_def numeral_2_eq_2 visit_incr_def Nsa_incr_def
        Nsa_get_def fun_upd_twist)

text \<open>
  C1 holds that \<^verbatim>\<open>update_Q\<close> adds \<^verbatim>\<open>alpha * delta * E[s][a]\<close> to \<^verbatim>\<open>Q[s][a]\<close> for every
  pair with a nonzero trace. The loop adds every such term to \<^verbatim>\<open>Q[old_s][old_a]\<close>: with
  the traces \<^verbatim>\<open>E[10][0] = 1\<close> and \<^verbatim>\<open>E[20][1] = 1\<close>, \<^verbatim>\<open>alpha = 1\<close> and \<^verbatim>\<open>delta = 1\<close>,
  the call \<^verbatim>\<open>update_Q(20, 30, 1, 0, 1)\<close> leaves \<^verbatim>\<open>Q[10][0]\<close> at 0 and \<^verbatim>\<open>Q[20][1]\<close> at 2,
  where the rule gives 1 and 1. The traces are decayed by \<^verbatim>\<open>gamma * lambd\<close> as stated.
\<close>

theorem SarsaLambda_update_Q_accumulates_on_old_pair:
  "bind_err (SarsaLambda_update_Q example_SarsaLambda 20 30 1 0 1)
     (\<lambda>ag'. Inr (SL_Q_val ag' 10 0, SL_Q_val ag' 20 1, SarsaLambda.E ag'))
   = Inr (0, 2, [(10, [1 / 4, 0]), (20, [0, 1 / 4])])"
  by (simp add: SarsaLambda_update_Q_def SarsaLambda_body_def example_SarsaLambda_def Let_def
        dd_get_def dd_touch_def alpha_of_def bind_err_def Nsa_touch_def Nsa_get_def
        al_get_def np_zeros_def np_at_def np_set_def upt2 SL_Q_val_def)

subsection \<open>The stored rows keep their length\<close>

text \<open>
  The hypothesis \<open>Q_rows_ok\<close> of the two theorems on \<^verbatim>\<open>update_Q\<close> holds in every state
  a Q-learning agent can reach: the constructor establishes it, \<^verbatim>\<open>act\<close> and \<^verbatim>\<open>update_Q\<close>
  preserve it, and after \<^verbatim>\<open>act\<close> the chosen pair has been counted.
\<close>

lemma Q_rows_ok_init: "Q_rows_ok n (QLearning.Q (QLearning_init g n n0))"
  by (simp add: Q_rows_ok_def QLearning_init_def)

lemma Q_rows_ok_touch: "Q_rows_ok n qt \<Longrightarrow> Q_rows_ok n (dd_touch (np_zeros n) qt s)"
  by (auto simp: Q_rows_ok_def dd_touch_def dd_get_def np_zeros_def ran_def split: option.splits if_splits)

lemma Q_rows_ok_upd: "Q_rows_ok n qt \<Longrightarrow> length row = n \<Longrightarrow> Q_rows_ok n (qt(s \<mapsto> row))"
  by (auto simp: Q_rows_ok_def ran_def split: if_splits)

lemma Q_rows_ok_act:
  assumes "Q_rows_ok (QLearning.available_actions ag) (QLearning.Q ag)"
    and "QLearning_act ag state coin rnd = Inr (action, ag')"
  shows "Q_rows_ok (QLearning.available_actions ag') (QLearning.Q ag') \<and>
         0 < Nsa_get (QLearning.Nsa ag') state action"
  using assms
  by (auto simp: QLearning_act_def Let_def bind_err_Inr greedy_or_bias_def Nsa_incr_get
        Q_rows_ok_touch split: if_splits)

lemma Q_rows_ok_update_Q:
  assumes ok: "Q_rows_ok (QLearning.available_actions ag) (QLearning.Q ag)"
    and u: "QLearning_update_Q ag old_state new_state action reward = Inr ag'"
  shows "Q_rows_ok (QLearning.available_actions ag') (QLearning.Q ag')"
proof -
  let ?n = "QLearning.available_actions ag"
  let ?q2 = "dd_touch (np_zeros ?n) (dd_touch (np_zeros ?n) (QLearning.Q ag) old_state) new_state"
  have ok2: "Q_rows_ok ?n ?q2" using ok by (simp add: Q_rows_ok_touch)
  have len: "length (dd_get (np_zeros ?n) ?q2 old_state) = ?n"
    using Q_row_length [OF ok, of old_state] by (simp add: dd_get_touch Q_row_def)
  obtain x where "ag' = ag\<lparr>QLearning.Q := ?q2(old_state \<mapsto> (dd_get (np_zeros ?n) ?q2 old_state)[action := x]),
       QLearning.Nsa := Nsa_touch (QLearning.Nsa ag) old_state action\<rparr>"
    using u by (auto simp: QLearning_update_Q_def Let_def bind_err_Inr np_set_def split: if_splits)
  then show ?thesis using Q_rows_ok_upd [OF ok2, of _ old_state] len by simp
qed

end
